theory Spec2Isabelle
  imports Main "HOL-Library.Word" "HOL-Library.AList"
begin

section \<open>The queue consumer (\<open>parser/queue/vaa_sqs.go\<close>)\<close>

text \<open>
  \<open>Consume\<close> starts one goroutine that polls the source queue, decodes and filters every
  message of the fetched batch, pushes the accepted ones on the buffered channel \<open>q.ch\<close> and
  then blocks in \<open>q.wg.Wait()\<close>. Workers read the channel and settle each message with
  \<open>Done\<close> or \<open>Failed\<close>. The goroutine and the workers interleave, so the program is a
  transition system: a state, and one transition per atomic action of either party.

  The JSON decoder, the filter predicate and the configuration of the queue client are
  collaborators of \<open>Consume\<close>; they are fields of the environment record. What
  \<open>GetMessages\<close> returns, what \<open>time.Now()\<close> reads and whether a \<open>DeleteMessage\<close>
  call succeeds come with the transitions.
\<close>

text \<open>
  The fields of the queue service's message that \<open>Consume\<close> reads. Both are pointers to
  strings; \<open>None\<close> is \<open>nil\<close>.
\<close>

record sqs_message =
  Body :: "string option"
  ReceiptHandle :: "string option"

text \<open>
  Modelled from the spec: the declarations of \<open>sqsEvent\<close> and \<open>VaaEvent\<close> are in a file
  of the package that is not among the sources. The outer transport envelope carries the
  serialized inner message as a string, the field \<open>Message\<close> that \<open>Consume\<close> reads; the
  inner message decodes to an event with a chain identifier. A \<open>VaaEvent\<close> is a value of
  the type variable \<open>'ev\<close>, and \<open>ChainID\<close> reads its chain identifier.
\<close>

record sqsEvent =
  Message :: string

record 'ev consumer_env =
  unmarshal_sqsEvent :: "string \<Rightarrow> sqsEvent option"
  unmarshal_vaaEvent :: "string \<Rightarrow> 'ev option"
  ChainID :: "'ev \<Rightarrow> 16 word"
  filterConsume :: "'ev \<Rightarrow> bool"
  GetVisibilityTimeout :: int
  chSize :: nat

text \<open>
  The methods of the \<open>Metrics\<close> interface that take a chain identifier; the sink is the
  list of the calls made on it. (\<open>AddVaaProcessedDuration\<close> takes a float and is never
  called by the consumer.)
\<close>

datatype metric_call =
    IncVaaConsumedQueue "16 word"
  | IncVaaUnfiltered "16 word"
  | IncOriginTxInserted "16 word"
  | IncVaaWithoutTxHash "16 word"
  | IncVaaWithTxHashFixed "16 word"

text \<open>
  \<open>sqsConsumerMessage\<close>: the receipt handle, the decoded event and the expiry. Its other
  fields (\<open>wg\<close>, \<open>logger\<close>, \<open>consumer\<close>, \<open>ctx\<close>) are references to the consumer's own.
\<close>

record 'ev sqsConsumerMessage =
  cm_id :: "string option"
  cm_data :: 'ev
  cm_expiredAt :: int

text \<open>
  Where the polling goroutine stands: about to call \<open>GetMessages\<close>; inside the \<open>for\<close>
  over the batch, with the messages still to handle and the batch's \<open>expiredAt\<close> (with no
  message left this is \<open>q.wg.Wait()\<close>); blocked on the channel send of line 92, after
  \<open>q.wg.Add(1)\<close>; or stopped by a panic.
\<close>

datatype 'ev pc =
    Fetch
  | Dispatch "sqs_message list" int
  | Send "'ev sqsConsumerMessage" "sqs_message list" int
  | Panicked

record 'ev sqs_state =
  pc :: "'ev pc"
  wg :: int
  ch :: "'ev sqsConsumerMessage list"
  held :: "'ev sqsConsumerMessage list"
  delete_calls :: "(string option \<times> bool) list"
  metric_calls :: "metric_call list"
  error_logs :: "string list"

text \<open>
  \<open>wg\<close> is the counter of the \<open>sync.WaitGroup\<close>, \<open>ch\<close> the content of the channel,
  \<open>held\<close> the messages a worker has received and not yet settled, \<open>delete_calls\<close> the
  \<open>DeleteMessage\<close> calls made so far, each with its handle and whether the queue service
  carried it out.
\<close>

definition IsExpired :: "'ev sqsConsumerMessage \<Rightarrow> int \<Rightarrow> bool" where
  "IsExpired m now = (cm_expiredAt m < now)"

definition init_state :: "'ev sqs_state" where
  "init_state = \<lparr>pc = Fetch, wg = 0, ch = [], held = [], delete_calls = [],
                 metric_calls = [], error_logs = []\<rparr>"

text \<open>
  The body of the \<open>for _, msg := range messages\<close> loop (lines 63 to 100) for one message,
  up to the channel send. \<open>del_ok\<close> says whether a \<open>DeleteMessage\<close> call, if one is made,
  succeeds. Dereferencing a nil \<open>msg.Body\<close> panics.
\<close>

definition loop_body ::
  "'ev consumer_env \<Rightarrow> bool \<Rightarrow> int \<Rightarrow> sqs_message \<Rightarrow> sqs_message list \<Rightarrow> 'ev sqs_state \<Rightarrow> 'ev sqs_state"
where
  "loop_body env del_ok expiredAt msg rest s =
    (case Body msg of
       None \<Rightarrow> s\<lparr>pc := Panicked\<rparr>
     | Some body \<Rightarrow>
        (case unmarshal_sqsEvent env body of
           None \<Rightarrow>
             s\<lparr>pc := Dispatch rest expiredAt,
               error_logs := error_logs s @ [''Error decoding message from SQS'']\<rparr>
         | Some sqsEv \<Rightarrow>
            (case unmarshal_vaaEvent env (Message sqsEv) of
               None \<Rightarrow>
                 s\<lparr>pc := Dispatch rest expiredAt,
                   error_logs := error_logs s @ [''Error decoding vaaEvent message from SQSEvent'']\<rparr>
             | Some vaaEvent \<Rightarrow>
                (let s1 = s\<lparr>metric_calls :=
                              metric_calls s @ [IncVaaConsumedQueue (ChainID env vaaEvent)]\<rparr>
                 in if filterConsume env vaaEvent
                    then s1\<lparr>pc := Dispatch rest expiredAt,
                            delete_calls := delete_calls s1 @ [(ReceiptHandle msg, del_ok)],
                            error_logs := (if del_ok then error_logs s1
                                           else error_logs s1 @ [''Error deleting message from SQS''])\<rparr>
                    else s1\<lparr>metric_calls :=
                              metric_calls s1 @ [IncVaaUnfiltered (ChainID env vaaEvent)],
                            wg := wg s1 + 1,
                            pc := Send \<lparr>cm_id = ReceiptHandle msg, cm_data = vaaEvent,
                                        cm_expiredAt = expiredAt\<rparr> rest expiredAt\<rparr>))))"

text \<open>
  The atomic actions. Of the goroutine: \<open>GetMessages\<close> returns a batch (with the reading
  of \<open>time.Now()\<close> that follows) or an error; the loop body runs for the next message; the
  blocked send completes, into the buffer or straight to a waiting receiver; \<open>Wait\<close>
  returns. Of a worker: it receives from the channel, or calls \<open>Done\<close> or \<open>Failed\<close> on
  the \<open>i\<close>-th message it holds.
\<close>

datatype event =
    GetMessagesOk "sqs_message list" int
  | GetMessagesErr
  | HandleNext bool
  | ChanSend
  | ChanHandoff
  | WorkerRecv
  | WorkerDone nat bool
  | WorkerFailed nat
  | WaitReturn

definition wg_Done :: "'ev sqs_state \<Rightarrow> 'ev sqs_state" where
  "wg_Done s = (if wg s - 1 < 0 then s\<lparr>pc := Panicked\<rparr> else s\<lparr>wg := wg s - 1\<rparr>)"

definition drop_nth :: "nat \<Rightarrow> 'a list \<Rightarrow> 'a list" where
  "drop_nth i xs = take i xs @ drop (Suc i) xs"

fun step :: "'ev consumer_env \<Rightarrow> event \<Rightarrow> 'ev sqs_state \<Rightarrow> 'ev sqs_state option" where
  "step env (GetMessagesOk messages now) s =
     (case pc s of
        Fetch \<Rightarrow> Some (s\<lparr>pc := Dispatch messages (now + GetVisibilityTimeout env)\<rparr>)
      | _ \<Rightarrow> None)"
| "step env GetMessagesErr s =
     (case pc s of
        Fetch \<Rightarrow> Some (s\<lparr>error_logs := error_logs s @ [''Error getting messages from SQS'']\<rparr>)
      | _ \<Rightarrow> None)"
| "step env (HandleNext del_ok) s =
     (case pc s of
        Dispatch (msg # rest) expiredAt \<Rightarrow> Some (loop_body env del_ok expiredAt msg rest s)
      | _ \<Rightarrow> None)"
| "step env ChanSend s =
     (case pc s of
        Send m rest expiredAt \<Rightarrow>
          (if length (ch s) < chSize env
           then Some (s\<lparr>ch := ch s @ [m], pc := Dispatch rest expiredAt\<rparr>)
           else None)
      | _ \<Rightarrow> None)"
| "step env ChanHandoff s =
     (case pc s of
        Send m rest expiredAt \<Rightarrow>
          (if ch s = []
           then Some (s\<lparr>held := held s @ [m], pc := Dispatch rest expiredAt\<rparr>)
           else None)
      | _ \<Rightarrow> None)"
| "step env WorkerRecv s =
     (case ch s of
        [] \<Rightarrow> None
      | m # ms \<Rightarrow> Some (s\<lparr>ch := ms, held := held s @ [m]\<rparr>))"
| "step env (WorkerDone i del_ok) s =
     (if i < length (held s)
      then Some (wg_Done
             (s\<lparr>held := drop_nth i (held s),
                delete_calls := delete_calls s @ [(cm_id (held s ! i), del_ok)],
                error_logs := (if del_ok then error_logs s
                               else error_logs s @ [''Error deleting message from SQS''])\<rparr>))
      else None)"
| "step env (WorkerFailed i) s =
     (if i < length (held s)
      then Some (wg_Done (s\<lparr>held := drop_nth i (held s)\<rparr>))
      else None)"
| "step env WaitReturn s =
     (case pc s of
        Dispatch [] expiredAt \<Rightarrow> (if wg s = 0 then Some (s\<lparr>pc := Fetch\<rparr>) else None)
      | _ \<Rightarrow> None)"

fun run :: "'ev consumer_env \<Rightarrow> event list \<Rightarrow> 'ev sqs_state \<Rightarrow> 'ev sqs_state option" where
  "run env [] s = Some s"
| "run env (e # es) s = (case step env e s of None \<Rightarrow> None | Some s' \<Rightarrow> run env es s')"

fun is_GetMessages :: "event \<Rightarrow> bool" where
  "is_GetMessages (GetMessagesOk messages now) = True"
| "is_GetMessages GetMessagesErr = True"
| "is_GetMessages _ = False"


section \<open>JavaScript values used by the EVM repository and the polling action\<close>

text \<open>
  A \<open>string\<close> stands for a JavaScript string whose code units are below 256. A field that
  may be absent or \<open>null\<close> at run time is a \<open>js_opt\<close> where the code tells the two apart,
  an \<open>option\<close> where it does not. A \<open>bigint\<close> is an \<open>int\<close>. A \<open>number\<close> that the code
  only passes on (timestamps, indices) is a value of the type variable \<open>'n\<close>, with the
  builtins that produce one taken as arguments; chain identifiers are integers.
  A \<open>Record\<close> from strings to values is an association list in insertion order, written by
  \<open>AList.update\<close>; a \<open>Set\<close> is a list without duplicates, in insertion order.
\<close>

datatype 'a js_opt = Undefined | Null | Val 'a

datatype js_error =
    HttpClientError string
  | SyntaxError
  | TypeError
  | UnableToParseBlock string
  | UnableToParseBlocks nat
  | UnableToParseReceipt
  | UnableToParseReceipts

type_synonym 'v js_record = "(string \<times> 'v) list"

fun js_String :: "string js_opt \<Rightarrow> string" where
  "js_String (Val s) = s"
| "js_String Null = ''null''"
| "js_String Undefined = ''undefined''"

definition toLowerCase_char :: "char \<Rightarrow> char" where
  "toLowerCase_char c =
     (let n = (of_char c :: nat)
      in if (65 \<le> n \<and> n \<le> 90) \<or> (192 \<le> n \<and> n \<le> 222 \<and> n \<noteq> 215)
         then char_of (n + 32) else c)"

definition toLowerCase :: "string \<Rightarrow> string" where
  "toLowerCase s = map toLowerCase_char s"

definition truthy :: "string option \<Rightarrow> bool" where
  "truthy v = (case v of None \<Rightarrow> False | Some s \<Rightarrow> s \<noteq> [])"

fun js_Set :: "'a list \<Rightarrow> 'a list" where
  "js_Set [] = []"
| "js_Set (x # xs) = x # removeAll x (js_Set xs)"

text \<open>\<open>Array.prototype.map\<close> with a callback that may throw: the first exception ends it.\<close>

fun map_throwing :: "('a \<Rightarrow> js_error + 'b) \<Rightarrow> 'a list \<Rightarrow> js_error + 'b list" where
  "map_throwing f [] = Inr []"
| "map_throwing f (x # xs) =
     (case f x of
        Inl e \<Rightarrow> Inl e
      | Inr y \<Rightarrow> (case map_throwing f xs of Inl e \<Rightarrow> Inl e | Inr ys \<Rightarrow> Inr (y # ys)))"

subsection \<open>\<open>bigint.toString(radix)\<close> and \<open>BigInt(string)\<close>\<close>

definition digit_char :: "nat \<Rightarrow> char" where
  "digit_char d = ''0123456789abcdef'' ! d"

function digits :: "nat \<Rightarrow> nat \<Rightarrow> string" where
  "digits radix n =
     (if n < radix \<or> radix < 2 then [digit_char n]
      else digits radix (n div radix) @ [digit_char (n mod radix)])"
  by pat_completeness auto
termination
  by (relation "measure (\<lambda>(radix, n). n)") auto

declare digits.simps [simp del]

definition bigint_toString :: "nat \<Rightarrow> int \<Rightarrow> string" where
  "bigint_toString radix n =
     (if n < 0 then CHR ''-'' # digits radix (nat (- n)) else digits radix (nat n))"

definition digit_val :: "char \<Rightarrow> nat option" where
  "digit_val c =
     (let n = (of_char c :: nat)
      in if 48 \<le> n \<and> n \<le> 57 then Some (n - 48)
         else if 97 \<le> n \<and> n \<le> 102 then Some (n - 87)
         else if 65 \<le> n \<and> n \<le> 70 then Some (n - 55)
         else None)"

fun parse_digits_from :: "nat \<Rightarrow> nat \<Rightarrow> string \<Rightarrow> nat option" where
  "parse_digits_from radix acc [] = Some acc"
| "parse_digits_from radix acc (c # cs) =
     (case digit_val c of
        None \<Rightarrow> None
      | Some d \<Rightarrow> if d < radix then parse_digits_from radix (acc * radix + d) cs else None)"

definition parse_digits :: "nat \<Rightarrow> string \<Rightarrow> nat option" where
  "parse_digits radix s = (if s = [] then None else parse_digits_from radix 0 s)"

definition is_whitespace :: "char \<Rightarrow> bool" where
  "is_whitespace c = ((of_char c :: nat) \<in> {9, 10, 11, 12, 13, 32, 160})"

definition js_trim :: "string \<Rightarrow> string" where
  "js_trim s = rev (dropWhile is_whitespace (rev (dropWhile is_whitespace s)))"

definition signed_decimal :: "string \<Rightarrow> int option" where
  "signed_decimal t =
     (case t of
        [] \<Rightarrow> None
      | c # ds \<Rightarrow>
          if c = CHR ''-'' then map_option (\<lambda>n. - int n) (parse_digits 10 ds)
          else if c = CHR ''+'' then map_option int (parse_digits 10 ds)
          else map_option int (parse_digits 10 t))"

text \<open>
  \<open>StringToBigInt\<close> of ECMAScript: surrounding white space is dropped; the empty string is
  zero; a \<open>0x\<close>, \<open>0o\<close> or \<open>0b\<close> literal (either case of the letter) has no sign; a decimal
  literal may have one. Anything else is no number, and \<open>BigInt\<close> throws a SyntaxError.
\<close>

definition StringToBigInt :: "string \<Rightarrow> int option" where
  "StringToBigInt s =
     (let t = js_trim s
      in case t of
           [] \<Rightarrow> Some 0
         | [c] \<Rightarrow> signed_decimal t
         | c1 # c2 # ds \<Rightarrow>
             if c1 = CHR ''0'' \<and> (c2 = CHR ''x'' \<or> c2 = CHR ''X'')
               then map_option int (parse_digits 16 ds)
             else if c1 = CHR ''0'' \<and> (c2 = CHR ''o'' \<or> c2 = CHR ''O'')
               then map_option int (parse_digits 8 ds)
             else if c1 = CHR ''0'' \<and> (c2 = CHR ''b'' \<or> c2 = CHR ''B'')
               then map_option int (parse_digits 2 ds)
             else signed_decimal t)"

definition BigInt :: "string \<Rightarrow> js_error + int" where
  "BigInt s = (case StringToBigInt s of None \<Rightarrow> Inl SyntaxError | Some n \<Rightarrow> Inr n)"

definition HEXADECIMAL_PREFIX :: string where
  "HEXADECIMAL_PREFIX = ''0x''"

section \<open>The EVM JSON-RPC repository (\<open>EvmJsonRPCBlockRepository.ts\<close>)\<close>

text \<open>
  The HTTP client is an argument: \<open>post\<close> maps the request body to what the provider
  answered, or to the exception the client threw (which the repository logs in
  \<open>handleError\<close> and throws again). The chain's configuration only supplies the URL, the
  timeouts and the chain identifier, so \<open>post\<close> stands for the client at that URL.
  JSON carries the quantities of a block or a log as strings.
\<close>

record ErrorBlock =
  eb_code :: int
  eb_message :: string

text \<open>
  Modelled from the spec: the entities \<open>EvmBlock\<close>, \<open>EvmTransaction\<close>,
  \<open>ReceiptTransaction\<close>, \<open>EvmLog\<close> and \<open>EvmLogFilter\<close> and the options \<open>GetEvmOpts\<close> are
  declared in files that are not among the sources. The records below have the fields
  that the code reads or writes, with the attributes of the spec's data model: a block has
  a number, a hash, a timestamp and an optional list of transactions; a transaction has a
  hash, \<open>from\<close>, \<open>to\<close> and, once enriched, the status and the logs of its receipt, the
  timestamp of its block and the chain's data; a log has an address, topics and data.
\<close>

record EvmTransactionLog =
  tl_address :: string
  tl_data :: string
  tl_topics :: "string list option"

record ReceiptTransaction =
  rt_status :: string
  rt_transactionHash :: string
  rt_logs :: "EvmTransactionLog list option"

record 'n EvmTransaction =
  tx_hash :: string
  tx_from :: "string js_opt"
  tx_to :: "string js_opt"
  tx_status :: "string option"
  tx_timestamp :: "'n option"
  tx_environment :: "string option"
  tx_chainId :: "int option"
  tx_chain :: "string option"
  tx_logs :: "EvmTransactionLog list option"

record 'n EvmBlock =
  blk_number :: int
  blk_hash :: string
  blk_timestamp :: 'n
  blk_transactions :: "'n EvmTransaction list option"

subsection \<open>\<open>getBlocks\<close>\<close>

record block_request =
  req_jsonrpc :: string
  req_id :: string
  req_method :: string
  req_params :: "string \<times> bool"

record raw_block =
  rb_hash :: "string option"
  rb_number :: "string option"
  rb_timestamp :: "string option"

record block_response =
  resp_id :: string
  resp_result :: "raw_block js_opt"
  resp_error :: "ErrorBlock option"

definition block_request_of :: "int \<Rightarrow> block_request" where
  "block_request_of blockNumber =
     (let blockNumberStrParam = HEXADECIMAL_PREFIX @ bigint_toString 16 blockNumber;
          blockNumberStrId = bigint_toString 10 blockNumber
      in \<lparr>req_jsonrpc = ''2.0'', req_id = blockNumberStrId,
          req_method = ''eth_getBlockByNumber'', req_params = (blockNumberStrParam, False)\<rparr>)"

text \<open>
  The test of lines 81 to 84: the response is there and its result is \<open>null\<close>, or its
  error has the code 6969.
\<close>

definition block_unavailable :: "block_response \<Rightarrow> bool" where
  "block_unavailable response =
     (resp_result response = Null \<or>
      (case resp_error response of
         None \<Rightarrow> False
       | Some e \<Rightarrow> eb_code e \<noteq> 0 \<and> eb_code e = 6969))"

text \<open>
  The callback of \<open>results.map\<close> (lines 75 to 117), for the response at position \<open>idx\<close>.
  \<open>Number_of\<close> is \<open>Number\<close> on strings and \<open>now\<close> what \<open>Date.now()\<close> returns when the
  callback runs. An absent response is reported under the identifier of the request at
  its position; reading that of a request that is not there is a TypeError.
\<close>

definition block_of_response ::
  "(string \<Rightarrow> 'n) \<Rightarrow> 'n \<Rightarrow> block_request list \<Rightarrow> nat \<Rightarrow> block_response option
     \<Rightarrow> js_error + 'n EvmBlock"
where
  "block_of_response Number_of now reqs idx r =
     (case r of
        None \<Rightarrow>
          (if idx < length reqs then Inl (UnableToParseBlock (req_id (reqs ! idx)))
           else Inl TypeError)
      | Some response \<Rightarrow>
          if block_unavailable response then
            (case BigInt (resp_id response) of
               Inl e \<Rightarrow> Inl e
             | Inr n \<Rightarrow> Inr \<lparr>blk_number = n, blk_hash = [], blk_timestamp = now,
                            blk_transactions = None\<rparr>)
          else
            (case resp_result response of
               Val result \<Rightarrow>
                 if truthy (rb_hash result) \<and> truthy (rb_number result)
                    \<and> truthy (rb_timestamp result)
                 then (case BigInt (the (rb_number result)) of
                         Inl e \<Rightarrow> Inl e
                       | Inr n \<Rightarrow>
                           Inr \<lparr>blk_number = n, blk_hash = the (rb_hash result),
                                blk_timestamp = Number_of (the (rb_timestamp result)),
                                blk_transactions = None\<rparr>)
                 else Inl (UnableToParseBlock (resp_id response))
             | _ \<Rightarrow> Inl (UnableToParseBlock (resp_id response))))"

definition enumerate_from0 :: "'a list \<Rightarrow> (nat \<times> 'a) list" where
  "enumerate_from0 xs = zip [0..<length xs] xs"

definition blocks_by_hash :: "'n EvmBlock list \<Rightarrow> 'n EvmBlock js_record" where
  "blocks_by_hash blocks = foldl (\<lambda>acc block. AList.update (blk_hash block) block acc) [] blocks"

text \<open>
  \<open>clock idx\<close> is the reading of \<open>Date.now()\<close> while the response at position \<open>idx\<close> is
  mapped. \<open>post\<close> may answer with no array at all (\<open>None\<close>).
\<close>

definition getBlocks ::
  "(string \<Rightarrow> 'n) \<Rightarrow> (nat \<Rightarrow> 'n)
     \<Rightarrow> (block_request list \<Rightarrow> js_error + block_response option list option)
     \<Rightarrow> int list \<Rightarrow> js_error + 'n EvmBlock js_record"
where
  "getBlocks Number_of clock post blockNumbers =
     (if blockNumbers = [] then Inr []
      else
        let reqs = map block_request_of blockNumbers
        in case post reqs of
             Inl e \<Rightarrow> Inl e
           | Inr None \<Rightarrow> Inl (UnableToParseBlocks 0)
           | Inr (Some results) \<Rightarrow>
               if results \<noteq> [] then
                 (case map_throwing
                         (\<lambda>(idx, response). block_of_response Number_of (clock idx) reqs idx response)
                         (enumerate_from0 results) of
                    Inl e \<Rightarrow> Inl e
                  | Inr blocks \<Rightarrow> Inr (blocks_by_hash blocks))
               else Inl (UnableToParseBlocks (length results)))"

subsection \<open>\<open>getFilteredLogs\<close>\<close>

record EvmLogFilter =
  flt_fromBlock :: int
  flt_toBlock :: int
  flt_addresses :: "string list"
  flt_topics :: "string list"

record parsedFilters =
  pf_topics :: "string list"
  pf_address :: "string list"
  pf_fromBlock :: string
  pf_toBlock :: string

record 'n Log =
  log_blockNumber :: string
  log_blockHash :: string
  log_transactionIndex :: 'n
  log_removed :: bool
  log_address :: string
  log_data :: string
  log_topics :: "string list"
  log_transactionHash :: string
  log_logIndex :: 'n

record 'n EvmLog =
  el_blockNumber :: int
  el_blockHash :: string
  el_transactionIndex :: string
  el_removed :: bool
  el_address :: string
  el_data :: string
  el_topics :: "string list"
  el_transactionHash :: string
  el_logIndex :: 'n
  el_chainId :: int

record 'n logs_response =
  lr_result :: "'n Log list option"
  lr_error :: "ErrorBlock option"

definition parsedFilters_of :: "EvmLogFilter \<Rightarrow> parsedFilters" where
  "parsedFilters_of logFilter =
     \<lparr>pf_topics = flt_topics logFilter, pf_address = flt_addresses logFilter,
      pf_fromBlock = HEXADECIMAL_PREFIX @ bigint_toString 16 (flt_fromBlock logFilter),
      pf_toBlock = HEXADECIMAL_PREFIX @ bigint_toString 16 (flt_toBlock logFilter)\<rparr>"

definition evmLog_of :: "('n \<Rightarrow> string) \<Rightarrow> int \<Rightarrow> 'n Log \<Rightarrow> js_error + 'n EvmLog" where
  "evmLog_of Number_toString chainId log =
     (case BigInt (log_blockNumber log) of
        Inl e \<Rightarrow> Inl e
      | Inr n \<Rightarrow>
          Inr \<lparr>el_blockNumber = n, el_blockHash = log_blockHash log,
               el_transactionIndex = Number_toString (log_transactionIndex log),
               el_removed = log_removed log, el_address = log_address log,
               el_data = log_data log, el_topics = log_topics log,
               el_transactionHash = log_transactionHash log, el_logIndex = log_logIndex log,
               el_chainId = chainId\<rparr>)"

text \<open>
  \<open>Number_toString\<close> is \<open>toString\<close> on numbers, \<open>chainId\<close> the configured identifier of
  the chain. The answer (\<open>response?.result\<close>) may hold no list of logs.
\<close>

definition getFilteredLogs ::
  "('n \<Rightarrow> string) \<Rightarrow> int \<Rightarrow> (parsedFilters \<Rightarrow> js_error + 'n logs_response option)
     \<Rightarrow> EvmLogFilter \<Rightarrow> js_error + 'n EvmLog list"
where
  "getFilteredLogs Number_toString chainId post logFilter =
     (case post (parsedFilters_of logFilter) of
        Inl e \<Rightarrow> Inl e
      | Inr response \<Rightarrow>
          (case (case response of None \<Rightarrow> None | Some r \<Rightarrow> lr_result r) of
             None \<Rightarrow> Inr []
           | Some logs \<Rightarrow> map_throwing (evmLog_of Number_toString chainId) logs))"

subsection \<open>\<open>getTransactionReceipt\<close>\<close>

record receipt_request =
  rq_jsonrpc :: string
  rq_id :: nat
  rq_method :: string
  rq_params :: string

record raw_receipt =
  rr_status :: "string option"
  rr_transactionHash :: "string option"
  rr_logs :: "EvmTransactionLog list option"

record ResultTransactionReceipt =
  res_result :: "raw_receipt option"
  res_error :: "ErrorBlock option"

definition divideIntoBatches :: "string list \<Rightarrow> nat \<Rightarrow> string list list" where
  "divideIntoBatches items batchSize =
     (let (batches, batch) =
            foldl (\<lambda>(batches, batch) item.
                     let batch' = batch @ [item]
                     in if length batch' = batchSize then (batches @ [js_Set batch'], [])
                        else (batches, batch'))
                  ([], []) items
      in if length batch > 0 then batches @ [js_Set batch] else batches)"

definition receipt_requests :: "nat \<Rightarrow> string list \<Rightarrow> receipt_request list" where
  "receipt_requests id0 batch =
     map (\<lambda>(i, hash). \<lparr>rq_jsonrpc = ''2.0'', rq_id = id0 + i,
                       rq_method = ''eth_getTransactionReceipt'', rq_params = hash\<rparr>)
         (enumerate_from0 batch)"

text \<open>
  The loop over the batches (lines 242 to 269): one \<open>post\<close> per batch; the responses that
  are not falsy are appended to \<open>combinedResults\<close>.
\<close>

fun collect_batches ::
  "(receipt_request list \<Rightarrow> js_error + ResultTransactionReceipt option list)
     \<Rightarrow> nat \<Rightarrow> string list list \<Rightarrow> ResultTransactionReceipt list
     \<Rightarrow> js_error + ResultTransactionReceipt list"
where
  "collect_batches post id0 [] combinedResults = Inr combinedResults"
| "collect_batches post id0 (batch # batches) combinedResults =
     (case post (receipt_requests id0 batch) of
        Inl e \<Rightarrow> Inl e
      | Inr results \<Rightarrow>
          collect_batches post (id0 + length batch) batches
            (combinedResults @ List.map_filter (\<lambda>result. result) results))"

definition receipt_of_response :: "ResultTransactionReceipt \<Rightarrow> js_error + ReceiptTransaction" where
  "receipt_of_response response =
     (case res_result response of
        None \<Rightarrow> Inl UnableToParseReceipt
      | Some result \<Rightarrow>
          if truthy (rr_status result) \<and> truthy (rr_transactionHash result)
          then Inr \<lparr>rt_status = the (rr_status result),
                    rt_transactionHash = the (rr_transactionHash result),
                    rt_logs = rr_logs result\<rparr>
          else Inl UnableToParseReceipt)"

definition receipts_by_hash :: "ReceiptTransaction list \<Rightarrow> ReceiptTransaction js_record" where
  "receipts_by_hash receipts =
     foldl (\<lambda>acc receiptTransaction.
              AList.update (rt_transactionHash receiptTransaction) receiptTransaction acc)
           [] receipts"

definition getTransactionReceipt ::
  "(receipt_request list \<Rightarrow> js_error + ResultTransactionReceipt option list)
     \<Rightarrow> string list \<Rightarrow> js_error + ReceiptTransaction js_record"
where
  "getTransactionReceipt post hashNumbers =
     (case collect_batches post 1 (divideIntoBatches hashNumbers 10) [] of
        Inl e \<Rightarrow> Inl e
      | Inr combinedResults \<Rightarrow>
          if combinedResults \<noteq> [] then
            (case map_throwing receipt_of_response combinedResults of
               Inl e \<Rightarrow> Inl e
             | Inr receipts \<Rightarrow> Inr (receipts_by_hash receipts))
          else Inl UnableToParseReceipts)"

section \<open>The polling action (\<open>GetEvmTransactions.ts\<close>)\<close>

text \<open>
  The action talks to the \<open>EvmBlockRepository\<close> interface. The repository is a record of
  its two methods used here, each a function from the arguments to the value returned or
  the exception thrown; \<open>execute\<close> also returns the list of the repository calls it made,
  in order.
\<close>

record GetEvmOpts =
  opt_addresses :: "string list option"
  opt_topics :: "string list option"
  opt_chain :: string
  opt_chainId :: int
  opt_environment :: string

record Range =
  rg_fromBlock :: int
  rg_toBlock :: int

record 'n EvmBlockRepository =
  getBlock :: "string \<Rightarrow> int \<Rightarrow> bool \<Rightarrow> js_error + 'n EvmBlock"
  getTransactionReceipt_of :: "string \<Rightarrow> string list \<Rightarrow> js_error + ReceiptTransaction js_record"

datatype repo_call =
    GetBlock string int bool
  | GetTransactionReceipt string "string list"

text \<open>\<open>opts.addresses?.includes(x)\<close>: \<open>undefined\<close>, which is falsy, without a list.\<close>

definition addresses_include :: "GetEvmOpts \<Rightarrow> string \<Rightarrow> bool" where
  "addresses_include opts x =
     (case opt_addresses opts of None \<Rightarrow> False | Some addresses \<Rightarrow> x \<in> set addresses)"

text \<open>The callback of the first filter (lines 39 to 41).\<close>

definition byAddressConfigured :: "GetEvmOpts \<Rightarrow> 'n EvmTransaction \<Rightarrow> bool" where
  "byAddressConfigured opts transaction =
     (addresses_include opts (toLowerCase (js_String (tx_to transaction))) \<or>
      addresses_include opts (toLowerCase (js_String (tx_from transaction))))"

text \<open>
  The callback of \<open>logs.some\<close> (lines 105 to 107): \<open>find\<close> returns the first configured
  topic that the log includes, or \<open>undefined\<close>, and \<open>some\<close> takes that value as a
  boolean.
\<close>

definition log_has_topic :: "GetEvmOpts \<Rightarrow> EvmTransactionLog \<Rightarrow> bool" where
  "log_has_topic opts log =
     truthy (case opt_topics opts of
               None \<Rightarrow> None
             | Some optsTopics \<Rightarrow>
                 List.find (\<lambda>topic. case tl_topics log of
                                      None \<Rightarrow> False
                                    | Some topics \<Rightarrow> topic \<in> set topics)
                           optsTopics)"

definition receipt_logs ::
  "ReceiptTransaction js_record \<Rightarrow> string \<Rightarrow> EvmTransactionLog list"
where
  "receipt_logs receiptTransactions hash =
     (case map_of receiptTransactions hash of
        None \<Rightarrow> []
      | Some receipt \<Rightarrow> (case rt_logs receipt of None \<Rightarrow> [] | Some logs \<Rightarrow> logs))"

definition filterTransactions ::
  "GetEvmOpts \<Rightarrow> 'n EvmTransaction list \<Rightarrow> ReceiptTransaction js_record \<Rightarrow> 'n EvmTransaction list"
where
  "filterTransactions opts transactionsByAddressConfigured receiptTransactions =
     filter (\<lambda>transaction.
               list_ex (log_has_topic opts)
                       (receipt_logs receiptTransactions (tx_hash transaction)))
            transactionsByAddressConfigured"

text \<open>
  \<open>populateTransaction\<close>: each transaction gets the status and the logs of its receipt, the
  block's timestamp and the chain's data, and is pushed. Reading the status of a receipt
  that is not in the record is a TypeError.
\<close>

fun populateTransaction ::
  "GetEvmOpts \<Rightarrow> 'n EvmBlock \<Rightarrow> ReceiptTransaction js_record \<Rightarrow> 'n EvmTransaction list
     \<Rightarrow> 'n EvmTransaction list \<Rightarrow> js_error + 'n EvmTransaction list"
where
  "populateTransaction opts evmBlock receiptTransactions [] populatedTransactions =
     Inr populatedTransactions"
| "populateTransaction opts evmBlock receiptTransactions (transaction # rest) populatedTransactions =
     (case map_of receiptTransactions (tx_hash transaction) of
        None \<Rightarrow> Inl TypeError
      | Some receipt \<Rightarrow>
          populateTransaction opts evmBlock receiptTransactions rest
            (populatedTransactions @
               [transaction\<lparr>tx_status := Some (rt_status receipt),
                            tx_timestamp := Some (blk_timestamp evmBlock),
                            tx_environment := Some (opt_environment opts),
                            tx_chainId := Some (opt_chainId opts),
                            tx_chain := Some (opt_chain opts),
                            tx_logs := rt_logs receipt\<rparr>]))"

text \<open>The \<open>for\<close> loop of \<open>execute\<close> (lines 33 to 64), from \<open>block\<close> on.\<close>

function execute_loop ::
  "'n EvmBlockRepository \<Rightarrow> GetEvmOpts \<Rightarrow> int \<Rightarrow> int \<Rightarrow> 'n EvmTransaction list
     \<Rightarrow> repo_call list \<Rightarrow> (js_error + 'n EvmTransaction list) \<times> repo_call list"
where
  "execute_loop blockRepo opts toBlock block populatedTransactions calls =
     (if block \<le> toBlock then
        (let chain = opt_chain opts;
             calls1 = calls @ [GetBlock chain block True]
         in case getBlock blockRepo chain block True of
              Inl e \<Rightarrow> (Inl e, calls1)
            | Inr evmBlock \<Rightarrow>
                (let transactions =
                       (case blk_transactions evmBlock of None \<Rightarrow> [] | Some ts \<Rightarrow> ts);
                     transactionsByAddressConfigured =
                       filter (byAddressConfigured opts) transactions
                 in if length transactionsByAddressConfigured > 0 then
                      (let hashNumbers = js_Set (map tx_hash transactionsByAddressConfigured);
                           calls2 = calls1 @ [GetTransactionReceipt chain hashNumbers]
                       in case getTransactionReceipt_of blockRepo chain hashNumbers of
                            Inl e \<Rightarrow> (Inl e, calls2)
                          | Inr receiptTransactions \<Rightarrow>
                              (case populateTransaction opts evmBlock receiptTransactions
                                      (filterTransactions opts transactionsByAddressConfigured
                                         receiptTransactions)
                                      populatedTransactions of
                                 Inl e \<Rightarrow> (Inl e, calls2)
                               | Inr populated \<Rightarrow>
                                   execute_loop blockRepo opts toBlock (block + 1) populated calls2))
                    else execute_loop blockRepo opts toBlock (block + 1)
                           populatedTransactions calls1))
      else (Inr populatedTransactions, calls))"
  by pat_completeness auto
termination
  by (relation "measure (\<lambda>(blockRepo, opts, toBlock, block, populatedTransactions, calls).
                           nat (toBlock + 1 - block))") auto

definition execute ::
  "'n EvmBlockRepository \<Rightarrow> Range \<Rightarrow> GetEvmOpts
     \<Rightarrow> (js_error + 'n EvmTransaction list) \<times> repo_call list"
where
  "execute blockRepo blockRange opts =
     (let fromBlock = rg_fromBlock blockRange;
          toBlock = rg_toBlock blockRange
      in if fromBlock > toBlock then (Inr [], [])
         else execute_loop blockRepo opts toBlock fromBlock [] [])"

section \<open>Invariant and example inputs of the queue consumer\<close>

text \<open>
  What the counter of the wait group counts: the messages in the channel, those a worker
  holds, and the one the goroutine is about to send.
\<close>

definition pending_send :: "'ev pc \<Rightarrow> int" where
  "pending_send p = (case p of Send m rest expiredAt \<Rightarrow> 1 | _ \<Rightarrow> 0)"

definition wg_invariant :: "'ev sqs_state \<Rightarrow> bool" where
  "wg_invariant s =
     (wg s = int (length (ch s)) + int (length (held s)) + pending_send (pc s) \<and>
      (pc s = Fetch \<longrightarrow> wg s = 0))"

text \<open>
  An environment whose events are their own chain identifiers: the envelope \<open>{\<close> does not
  decode, the inner messages \<open>1\<close> and \<open>2\<close> do, and the filter skips the events of chain 1.
\<close>

definition example_env :: "(16 word) consumer_env" where
  "example_env =
     \<lparr>unmarshal_sqsEvent = (\<lambda>body. if body = ''{'' then None else Some \<lparr>Message = body\<rparr>),
      unmarshal_vaaEvent = (\<lambda>m. if m = ''1'' then Some 1 else if m = ''2'' then Some 2 else None),
      ChainID = (\<lambda>e. e),
      filterConsume = (\<lambda>e. e = 1),
      GetVisibilityTimeout = 30,
      chSize = 10\<rparr>"

definition example_message :: "string \<Rightarrow> sqs_message" where
  "example_message body = \<lparr>Body = Some body, ReceiptHandle = Some (''handle-'' @ body)\<rparr>"

definition example_cycle :: "event list" where
  "example_cycle =
     [GetMessagesOk [example_message ''2''] 100, HandleNext True, ChanSend, WorkerRecv,
      WorkerDone 0 True, WaitReturn]"

definition example_drained :: "(16 word) sqs_state" where
  "example_drained =
     \<lparr>pc = Fetch, wg = 0, ch = [], held = [],
      delete_calls = [(Some ''handle-2'', True)],
      metric_calls = [IncVaaConsumedQueue 2, IncVaaUnfiltered 2], error_logs = []\<rparr>"

definition example_dispatching :: "string \<Rightarrow> (16 word) sqs_state" where
  "example_dispatching body = init_state\<lparr>pc := Dispatch [example_message body] 130\<rparr>"

section \<open>Example inputs of the polling action\<close>

definition example_opts :: "string list \<Rightarrow> string list \<Rightarrow> GetEvmOpts" where
  "example_opts addresses topics =
     \<lparr>opt_addresses = Some addresses, opt_topics = Some topics, opt_chain = ''ethereum'',
      opt_chainId = 2, opt_environment = ''testnet''\<rparr>"

definition example_tx :: "string \<Rightarrow> string \<Rightarrow> string \<Rightarrow> nat EvmTransaction" where
  "example_tx hash from_address to_address =
     \<lparr>tx_hash = hash, tx_from = Val from_address, tx_to = Val to_address, tx_status = None,
      tx_timestamp = None, tx_environment = None, tx_chainId = None, tx_chain = None,
      tx_logs = None\<rparr>"

definition example_receipt :: "string \<Rightarrow> string list \<Rightarrow> ReceiptTransaction" where
  "example_receipt hash topics =
     \<lparr>rt_status = ''0x1'', rt_transactionHash = hash,
      rt_logs = Some [\<lparr>tl_address = ''0xab'', tl_data = ''0x'', tl_topics = Some topics\<rparr>]\<rparr>"

text \<open>A repository whose every call throws.\<close>

definition unreachable_repo :: "nat EvmBlockRepository" where
  "unreachable_repo =
     \<lparr>getBlock = (\<lambda>chain block isTransactionsPresent. Inl (HttpClientError ''timeout'')),
      getTransactionReceipt_of = (\<lambda>chain hashNumbers. Inl (HttpClientError ''timeout''))\<rparr>"

section \<open>Notions used to state the properties of the repository\<close>

text \<open>The logs in the provider's answer to \<open>eth_getLogs\<close>: none without a result.\<close>

definition answered_logs :: "'n logs_response option \<Rightarrow> 'n Log list" where
  "answered_logs response =
     (case response of
        None \<Rightarrow> []
      | Some r \<Rightarrow> (case lr_result r of None \<Rightarrow> [] | Some logs \<Rightarrow> logs))"

text \<open>
  The request bodies that \<open>getTransactionReceipt\<close> posts for a list of batches, the first
  identifier being \<open>id0\<close>.
\<close>

fun batch_requests :: "nat \<Rightarrow> string list list \<Rightarrow> receipt_request list list" where
  "batch_requests id0 [] = []"
| "batch_requests id0 (batch # batches) =
     receipt_requests id0 batch # batch_requests (id0 + length batch) batches"

definition is_decimal_digit :: "char \<Rightarrow> bool" where
  "is_decimal_digit c = (48 \<le> (of_char c :: nat) \<and> (of_char c :: nat) \<le> 57)"

section \<open>Example inputs of the repository\<close>

definition example_log :: "string \<Rightarrow> nat Log" where
  "example_log blockNumber =
     \<lparr>log_blockNumber = blockNumber, log_blockHash = ''0xb1'', log_transactionIndex = 0,
      log_removed = False, log_address = ''0xab'', log_data = ''0x'', log_topics = [''0xt1''],
      log_transactionHash = ''0x01'', log_logIndex = 0\<rparr>"

definition example_filter :: EvmLogFilter where
  "example_filter =
     \<lparr>flt_fromBlock = 100, flt_toBlock = 200, flt_addresses = [''0xab''], flt_topics = [''0xt1'']\<rparr>"

text \<open>A provider that answers every log query with one log, of the given block number.\<close>

definition example_logs_post ::
  "string \<Rightarrow> parsedFilters \<Rightarrow> js_error + nat logs_response option" where
  "example_logs_post blockNumber parsed =
     Inr (Some \<lparr>lr_result = Some [example_log blockNumber], lr_error = None\<rparr>)"

definition example_receipt_response :: "string \<Rightarrow> ResultTransactionReceipt" where
  "example_receipt_response hash =
     \<lparr>res_result = Some \<lparr>rr_status = Some ''0x1'', rr_transactionHash = Some hash,
                          rr_logs = Some []\<rparr>,
      res_error = None\<rparr>"

text \<open>A provider that answers a batch with \<open>null\<close> and the receipt of \<open>0x02\<close>.\<close>

definition example_receipts_post ::
  "receipt_request list \<Rightarrow> js_error + ResultTransactionReceipt option list" where
  "example_receipts_post reqs = Inr [None, Some (example_receipt_response ''0x02'')]"

definition example_Number :: "string \<Rightarrow> int" where
  "example_Number s = (case StringToBigInt s of None \<Rightarrow> 0 | Some n \<Rightarrow> n)"

definition example_clock :: "nat \<Rightarrow> int" where
  "example_clock idx = 1700000000000 + int idx"

definition null_result_response :: "string \<Rightarrow> block_response" where
  "null_result_response ident = \<lparr>resp_id = ident, resp_result = Null, resp_error = None\<rparr>"

definition error_6969_response :: "string \<Rightarrow> block_response" where
  "error_6969_response ident =
     \<lparr>resp_id = ident, resp_result = Undefined,
      resp_error = Some \<lparr>eb_code = 6969, eb_message = ''No response received''\<rparr>\<rparr>"

definition block_20_response :: block_response where
  "block_20_response =
     \<lparr>resp_id = ''20'',
      resp_result = Val \<lparr>rb_hash = Some ''0xh20'', rb_number = Some ''0x14'',
                         rb_timestamp = Some ''0x64''\<rparr>,
      resp_error = None\<rparr>"

definition example_blocks_post ::
  "block_response option list \<Rightarrow> block_request list
     \<Rightarrow> js_error + block_response option list option" where
  "example_blocks_post results reqs = Inr (Some results)"

definition block_30_response :: block_response where
  "block_30_response =
     \<lparr>resp_id = ''30'',
      resp_result = Val \<lparr>rb_hash = Some ''0xh30'', rb_number = Some ''0x1e'',
                         rb_timestamp = Some ''0x65''\<rparr>,
      resp_error = None\<rparr>"

text \<open>Providers that answer a batch with nothing but \<open>null\<close>, with a response that has no
  result, and with two receipts of the same transaction hash.\<close>

definition null_receipts_post ::
  "receipt_request list \<Rightarrow> js_error + ResultTransactionReceipt option list" where
  "null_receipts_post reqs = Inr [None, None]"

definition unparsed_receipts_post ::
  "receipt_request list \<Rightarrow> js_error + ResultTransactionReceipt option list" where
  "unparsed_receipts_post reqs =
     Inr [Some \<lparr>res_result = None,
                res_error = Some \<lparr>eb_code = - 32000, eb_message = ''not found''\<rparr>\<rparr>,
          Some (example_receipt_response ''0x02'')]"

definition duplicate_receipts_post ::
  "receipt_request list \<Rightarrow> js_error + ResultTransactionReceipt option list" where
  "duplicate_receipts_post reqs =
     Inr [Some \<lparr>res_result = Some \<lparr>rr_status = Some ''0x0'', rr_transactionHash = Some ''0x02'',
                                      rr_logs = None\<rparr>,
                res_error = None\<rparr>,
          Some (example_receipt_response ''0x02'')]"

section \<open>The queue consumer: the batch barrier\<close>

lemma wg_invariant_init: "wg_invariant init_state"
  by (simp add: wg_invariant_def init_state_def pending_send_def)

lemma length_drop_nth: "i < length xs \<Longrightarrow> length (drop_nth i xs) = length xs - 1"
  by (simp add: drop_nth_def min_def)

lemma loop_body_invariant:
  assumes "wg_invariant s" "pc s = Dispatch (msg # rest) t"
  shows "wg_invariant (loop_body env del_ok t msg rest s)"
  using assms
  by (auto simp: wg_invariant_def loop_body_def pending_send_def Let_def split: option.splits)

lemma step_invariant:
  assumes "wg_invariant s" "step env e s = Some s'"
  shows "wg_invariant s'"
proof (cases e)
  case (HandleNext del_ok)
  then show ?thesis using assms loop_body_invariant[of s _ _ _ env del_ok]
    by (auto split: pc.splits list.splits)
next
  case (WorkerDone i ok)
  then show ?thesis using assms
    by (auto simp: wg_invariant_def wg_Done_def pending_send_def length_drop_nth
             split: if_splits pc.splits)
next
  case (WorkerFailed i)
  then show ?thesis using assms
    by (auto simp: wg_invariant_def wg_Done_def pending_send_def length_drop_nth
             split: if_splits pc.splits)
qed (use assms in \<open>auto simp: wg_invariant_def pending_send_def split: pc.splits list.splits if_splits\<close>)

lemma run_invariant:
  "wg_invariant s \<Longrightarrow> run env evs s = Some s' \<Longrightarrow> wg_invariant s'"
proof (induction evs arbitrary: s)
  case Nil
  then show ?case by simp
next
  case (Cons e evs)
  then show ?case by (auto split: option.splits dest: step_invariant)
qed

lemma GetMessages_at_Fetch:
  "is_GetMessages e \<Longrightarrow> step env e s = Some s' \<Longrightarrow> pc s = Fetch"
  by (cases e) (auto split: pc.splits)

text \<open>
  Claim C1. In every state the consumer can reach, a call of \<open>GetMessages\<close> finds the
  counter of the wait group at zero, the channel empty and no message in the hands of a
  worker: every message pushed for the batch before has been settled by \<open>Done\<close> or
  \<open>Failed\<close>. A worker settles a message it holds once, as the contract of
  \<open>ConsumerMessage\<close> asks.
\<close>

theorem consume_fetches_only_when_drained:
  assumes "run env evs init_state = Some s" and "is_GetMessages e" and "step env e s = Some s'"
  shows "wg s = 0 \<and> ch s = [] \<and> held s = []"
proof -
  have "wg_invariant s" using run_invariant[OF wg_invariant_init assms(1)] .
  moreover have "pc s = Fetch" using GetMessages_at_Fetch[OF assms(2,3)] .
  ultimately have "wg s = 0" and "int (length (ch s)) + int (length (held s)) = 0"
    by (auto simp: wg_invariant_def pending_send_def)
  then have "wg s = 0" and "length (ch s) = 0" and "length (held s) = 0"
    by linarith+
  then show ?thesis by simp
qed

lemma example_cycle_run: "run example_env example_cycle init_state = Some example_drained"
  by (simp add: example_cycle_def example_env_def example_message_def init_state_def
        example_drained_def loop_body_def wg_Done_def drop_nth_def)

theorem consume_fetches_only_when_drained_witness:
  "run example_env example_cycle init_state = Some example_drained \<and>
   is_GetMessages (GetMessagesOk [] 200) \<and>
   step example_env (GetMessagesOk [] 200) example_drained
     = Some (example_drained\<lparr>pc := Dispatch [] 230\<rparr>) \<and>
   wg example_drained = 0 \<and> ch example_drained = [] \<and> held example_drained = []"
proof -
  have h1: "run example_env example_cycle init_state = Some example_drained"
    by (rule example_cycle_run)
  have h2: "is_GetMessages (GetMessagesOk [] 200)" by simp
  have h3: "step example_env (GetMessagesOk [] 200) example_drained
              = Some (example_drained\<lparr>pc := Dispatch [] 230\<rparr>)"
    by (simp add: example_drained_def example_env_def)
  from consume_fetches_only_when_drained[OF h1 h2 h3] h1 h2 h3 show ?thesis by simp
qed

section \<open>The queue consumer: one message of the batch\<close>

text \<open>
  Claim C4, as stated, fails: no counter of filtered messages is incremented. For a
  message that the filter rejects, the only call on the metrics is \<open>IncVaaConsumedQueue\<close>,
  which is also made for a message that the filter accepts, before \<open>IncVaaUnfiltered\<close>.
\<close>

theorem filtered_message_counter_counterexample:
  "filterConsume example_env 1 \<and>
   step example_env (HandleNext True) (example_dispatching ''1'')
     = Some (init_state\<lparr>pc := Dispatch [] 130,
                         delete_calls := [(Some ''handle-1'', True)],
                         metric_calls := [IncVaaConsumedQueue 1]\<rparr>) \<and>
   \<not> filterConsume example_env 2 \<and>
   step example_env (HandleNext True) (example_dispatching ''2'')
     = Some (init_state\<lparr>pc := Send \<lparr>cm_id = Some ''handle-2'', cm_data = 2,
                                      cm_expiredAt = 130\<rparr> [] 130,
                         wg := 1,
                         metric_calls := [IncVaaConsumedQueue 2, IncVaaUnfiltered 2]\<rparr>)"
  by (simp add: example_dispatching_def example_env_def example_message_def init_state_def
        loop_body_def)

text \<open>
  Claim C4, amended. For a fetched message that decodes and that the filter rejects, the
  consumer calls \<open>DeleteMessage\<close> with its receipt handle (a failed call is logged), goes
  on to the next message, and calls \<open>IncVaaConsumedQueue\<close> once and no other metric: the
  channel, the counter of the wait group and the messages held by workers stay as they
  were.
\<close>

theorem filtered_message_deleted_not_forwarded:
  assumes "pc s = Dispatch (msg # rest) expiredAt"
    and "Body msg = Some body"
    and "unmarshal_sqsEvent env body = Some sqsEv"
    and "unmarshal_vaaEvent env (Message sqsEv) = Some vaaEvent"
    and "filterConsume env vaaEvent"
  shows "step env (HandleNext del_ok) s =
           Some (s\<lparr>pc := Dispatch rest expiredAt,
                   delete_calls := delete_calls s @ [(ReceiptHandle msg, del_ok)],
                   metric_calls := metric_calls s @ [IncVaaConsumedQueue (ChainID env vaaEvent)],
                   error_logs := (if del_ok then error_logs s
                                  else error_logs s @ [''Error deleting message from SQS''])\<rparr>)"
  using assms by (simp add: loop_body_def Let_def)

theorem filtered_message_deleted_not_forwarded_witness:
  "step example_env (HandleNext False) (example_dispatching ''1'')
     = Some (init_state\<lparr>pc := Dispatch [] 130,
                         delete_calls := [(Some ''handle-1'', False)],
                         metric_calls := [IncVaaConsumedQueue 1],
                         error_logs := [''Error deleting message from SQS'']\<rparr>)"
proof -
  have h1: "pc (example_dispatching ''1'') = Dispatch (example_message ''1'' # []) 130"
    by (simp add: example_dispatching_def)
  have h2: "Body (example_message ''1'') = Some ''1''"
    by (simp add: example_message_def)
  have h3: "unmarshal_sqsEvent example_env ''1'' = Some \<lparr>Message = ''1''\<rparr>"
    by (simp add: example_env_def)
  have h4: "unmarshal_vaaEvent example_env (Message \<lparr>Message = ''1''\<rparr>) = Some 1"
    by (simp add: example_env_def)
  have h5: "filterConsume example_env 1"
    by (simp add: example_env_def)
  from filtered_message_deleted_not_forwarded[OF h1 h2 h3 h4 h5, of False]
  show ?thesis
    by (simp add: example_dispatching_def example_env_def example_message_def init_state_def)
qed

text \<open>
  Claim C10. For a fetched message whose envelope or whose inner event does not decode,
  the loop body logs the error and goes on to the next message: no \<open>DeleteMessage\<close> call,
  nothing pushed on the channel, the counter of the wait group and the metrics untouched.
\<close>

theorem undecodable_message_skipped:
  assumes "pc s = Dispatch (msg # rest) expiredAt"
    and "Body msg = Some body"
    and "unmarshal_sqsEvent env body = None \<or>
         (\<exists>sqsEv. unmarshal_sqsEvent env body = Some sqsEv \<and>
                  unmarshal_vaaEvent env (Message sqsEv) = None)"
  shows "\<exists>s'. step env (HandleNext del_ok) s = Some s' \<and>
              pc s' = Dispatch rest expiredAt \<and>
              delete_calls s' = delete_calls s \<and> ch s' = ch s \<and> held s' = held s \<and>
              wg s' = wg s \<and> metric_calls s' = metric_calls s \<and>
              length (error_logs s') = Suc (length (error_logs s))"
  using assms by (auto simp: loop_body_def Let_def)

theorem undecodable_message_skipped_witness:
  "\<exists>s'. step example_env (HandleNext True) (example_dispatching ''{'') = Some s' \<and>
        pc s' = Dispatch [] 130 \<and> delete_calls s' = [] \<and> ch s' = [] \<and> held s' = [] \<and>
        wg s' = 0 \<and> metric_calls s' = [] \<and> length (error_logs s') = Suc 0"
proof -
  have h1: "pc (example_dispatching ''{'') = Dispatch (example_message ''{'' # []) 130"
    by (simp add: example_dispatching_def)
  have h2: "Body (example_message ''{'') = Some ''{''"
    by (simp add: example_message_def)
  have h3: "unmarshal_sqsEvent example_env ''{'' = None \<or>
            (\<exists>sqsEv. unmarshal_sqsEvent example_env ''{'' = Some sqsEv \<and>
                     unmarshal_vaaEvent example_env (Message sqsEv) = None)"
    by (simp add: example_env_def)
  from undecodable_message_skipped[OF h1 h2 h3, of True]
  show ?thesis
    by (simp add: example_dispatching_def init_state_def)
qed

section \<open>The polling action\<close>

text \<open>
  Claim C7. For a range with \<open>fromBlock > toBlock\<close>, \<open>execute\<close> returns the empty list,
  not an error, and makes no call on the repository.
\<close>

theorem execute_inverted_range_empty_no_calls:
  assumes "rg_fromBlock blockRange > rg_toBlock blockRange"
  shows "execute blockRepo blockRange opts = (Inr [], [])"
  using assms by (simp add: execute_def Let_def)

theorem execute_inverted_range_empty_no_calls_witness:
  "execute unreachable_repo \<lparr>rg_fromBlock = 10, rg_toBlock = 5\<rparr> (example_opts [''0xab''] [])
     = (Inr [], [])"
proof -
  have h: "rg_fromBlock \<lparr>rg_fromBlock = 10, rg_toBlock = 5\<rparr>
             > rg_toBlock \<lparr>rg_fromBlock = 10, rg_toBlock = 5\<rparr>"
    by simp
  from execute_inverted_range_empty_no_calls[OF h] show ?thesis .
qed




lemma find_truthy:
  assumes "[] \<notin> set ts"
  shows "truthy (List.find P ts) \<longleftrightarrow> (\<exists>t \<in> set ts. P t)"
  using assms by (induction ts) (auto simp: truthy_def)

text \<open>
  With no empty string among the configured topics, the second filter keeps a
  transaction exactly when a log of its receipt includes a configured topic.
\<close>

lemma filterTransactions_nonempty_topics:
  assumes "opt_topics opts = Some optsTopics" and "[] \<notin> set optsTopics"
  shows "transaction \<in> set (filterTransactions opts txs receiptTransactions) \<longleftrightarrow>
           transaction \<in> set txs \<and>
           (\<exists>log \<in> set (receipt_logs receiptTransactions (tx_hash transaction)).
              \<exists>topic \<in> set optsTopics. \<exists>topics. tl_topics log = Some topics \<and> topic \<in> set topics)"
proof -
  have "log_has_topic opts log \<longleftrightarrow>
          (\<exists>topic \<in> set optsTopics. \<exists>topics. tl_topics log = Some topics \<and> topic \<in> set topics)"
    for log
    using assms by (cases "tl_topics log") (simp_all add: log_has_topic_def find_truthy)
  then show ?thesis
    by (simp add: filterTransactions_def list_ex_iff)
qed

text \<open>
  Claim C8. The callback of \<open>logs.some\<close> returns what \<open>find\<close> found, a topic, and an
  empty topic is falsy. With the configured topics \<open>['''', ''0xt1'']\<close>, a transaction whose
  receipt has a log with both topics is dropped, although the log includes a configured
  topic.
\<close>

theorem filterTransactions_empty_topic_dropped:
  "filterTransactions (example_opts [''0xab''] ['''', ''0xt1''])
     [example_tx ''0x01'' ''0xcd'' ''0xab'']
     [(''0x01'', example_receipt ''0x01'' ['''', ''0xt1''])] = []"
  by (simp add: filterTransactions_def log_has_topic_def receipt_logs_def truthy_def
        example_opts_def example_tx_def example_receipt_def)
section \<open>Lists, records and numerals of the JavaScript model\<close>

lemma map_throwing_Inr_iff:
  "map_throwing f xs = Inr ys \<longleftrightarrow> map f xs = map Inr ys"
proof (induction xs arbitrary: ys)
  case Nil
  then show ?case by auto
next
  case (Cons x xs)
  show ?case
  proof (cases "f x")
    case (Inl e)
    then show ?thesis by (cases ys) auto
  next
    case (Inr y)
    show ?thesis
    proof (cases "map_throwing f xs")
      case (Inl e)
      with Inr Cons.IH show ?thesis by (cases ys) auto
    next
      case Inr2: (Inr zs)
      with Inr Cons.IH[of zs] Cons.IH show ?thesis by (cases ys) auto
    qed
  qed
qed

lemma enumerate_from0_nth:
  "k < length xs \<Longrightarrow> enumerate_from0 xs ! k = (k, xs ! k)"
  by (simp add: enumerate_from0_def)

lemma length_enumerate_from0: "length (enumerate_from0 xs) = length xs"
  by (simp add: enumerate_from0_def)

lemma map_throwing_enumerate:
  assumes "map_throwing (\<lambda>(idx, x). f idx x) (enumerate_from0 xs) = Inr ys"
  shows "length ys = length xs \<and> (\<forall>k < length xs. f k (xs ! k) = Inr (ys ! k))"
proof -
  from assms have m: "map (\<lambda>(idx, x). f idx x) (enumerate_from0 xs) = map Inr ys"
    by (simp add: map_throwing_Inr_iff)
  then have len: "length ys = length xs"
    by (metis length_map length_enumerate_from0)
  have "f k (xs ! k) = Inr (ys ! k)" if "k < length xs" for k
  proof -
    have "map (\<lambda>(idx, x). f idx x) (enumerate_from0 xs) ! k = map Inr ys ! k"
      using m by simp
    then show ?thesis
      using that len by (simp add: enumerate_from0_nth length_enumerate_from0)
  qed
  with len show ?thesis by simp
qed

lemma keys_foldl_update:
  "fst ` set (foldl (\<lambda>acc v. AList.update (key v) v acc) acc0 vs)
     = fst ` set acc0 \<union> key ` set vs"
  by (induction vs arbitrary: acc0) (auto simp: dom_update)

lemma distinct_foldl_update:
  "distinct (map fst acc0) \<Longrightarrow>
     distinct (map fst (foldl (\<lambda>acc v. AList.update (key v) v acc) acc0 vs))"
  by (induction vs arbitrary: acc0) (auto simp: distinct_update)

lemma distinct_keys_one_entry:
  "distinct (map fst al) \<Longrightarrow> k \<in> fst ` set al \<Longrightarrow> length (filter (\<lambda>p. fst p = k) al) = 1"
proof (induction al)
  case Nil
  then show ?case by simp
next
  case (Cons p al)
  show ?case
  proof (cases "fst p = k")
    case True
    with Cons.prems have "k \<notin> fst ` set al"
      by simp
    then have "\<forall>q \<in> set al. fst q \<noteq> k"
      by (metis imageI)
    then have "filter (\<lambda>p. fst p = k) al = []"
      by (simp add: filter_empty_conv)
    with True show ?thesis by simp
  next
    case False
    with Cons show ?thesis by auto
  qed
qed

text \<open>
  A record written by \<open>acc[key] = value\<close> in a loop holds, under each key, the
  last value written there.
\<close>

lemma map_of_foldl_update:
  "map_of (foldl (\<lambda>acc v. AList.update (key v) v acc) acc0 vs) h =
     (case map_of (rev (map (\<lambda>v. (key v, v)) vs)) h of
        None \<Rightarrow> map_of acc0 h
      | Some v \<Rightarrow> Some v)"
proof (induction vs arbitrary: acc0)
  case Nil
  then show ?case by simp
next
  case (Cons v vs)
  show ?case
    by (simp add: Cons.IH update_conv' map_add_def split: option.splits)
qed

lemma map_of_rev_last_index:
  assumes "k < length vs" and "key (vs ! k) = h"
    and "\<forall>k'. k < k' \<and> k' < length vs \<longrightarrow> key (vs ! k') \<noteq> h"
  shows "map_of (rev (map (\<lambda>v. (key v, v)) vs)) h = Some (vs ! k)"
proof -
  let ?g = "\<lambda>v. (key v, v)"
  have split: "vs = take k vs @ vs ! k # drop (Suc k) vs"
    using assms(1) by (rule id_take_nth_drop)
  have later: "h \<notin> fst ` set (rev (map ?g (drop (Suc k) vs)))"
  proof
    assume "h \<in> fst ` set (rev (map ?g (drop (Suc k) vs)))"
    then obtain v where v: "v \<in> set (drop (Suc k) vs)" "key v = h"
      by auto
    then obtain d where d: "d < length (drop (Suc k) vs)" "drop (Suc k) vs ! d = v"
      by (auto simp: in_set_conv_nth)
    then have "vs ! (Suc k + d) = v" "Suc k + d < length vs"
      by auto
    with assms(3) v(2) show False
      by (metis add_Suc less_add_Suc1)
  qed
  then have none: "map_of (rev (map ?g (drop (Suc k) vs))) h = None"
    by (simp only: map_of_eq_None_iff not_False_eq_True)
  have "rev (map ?g vs) =
          rev (map ?g (drop (Suc k) vs)) @ (key (vs ! k), vs ! k) # rev (map ?g (take k vs))"
    by (subst split) simp
  then show ?thesis
    using none assms(2) by (simp add: map_add_def)
qed

lemma last_index_ex:
  assumes "(i::nat) < n" and "P i"
  shows "\<exists>k. i \<le> k \<and> k < n \<and> P k \<and> (\<forall>k'. k < k' \<and> k' < n \<longrightarrow> \<not> P k')"
proof -
  let ?S = "{k. k < n \<and> P k}"
  have "?S \<subseteq> {..<n}" by auto
  then have fin: "finite ?S" by (rule finite_subset) simp
  have mem: "i \<in> ?S" using assms by simp
  then have ne: "?S \<noteq> {}" by blast
  have in_S: "Max ?S \<in> ?S" using fin ne by (rule Max_in)
  have ge: "i \<le> Max ?S" using fin mem by (rule Max_ge)
  have top: "\<not> P k'" if "Max ?S < k'" "k' < n" for k'
  proof
    assume "P k'"
    with that have "k' \<in> ?S" by simp
    then have "k' \<le> Max ?S" using fin by (simp only: Max_ge)
    with that show False by simp
  qed
  from in_S ge top show ?thesis by blast
qed

lemma map_throwing_Inl_index:
  "map_throwing f xs = Inl e \<Longrightarrow> \<exists>k < length xs. f (xs ! k) = Inl e"
proof (induction xs)
  case Nil
  then show ?case by simp
next
  case (Cons x xs)
  show ?case
  proof (cases "f x")
    case (Inl e')
    with Cons.prems have "f ((x # xs) ! 0) = Inl e" by simp
    then show ?thesis by blast
  next
    case (Inr y)
    with Cons.prems have "map_throwing f xs = Inl e"
      by (auto split: sum.splits)
    from Cons.IH[OF this] obtain k where "k < length xs" "f (xs ! k) = Inl e" by blast
    then have "Suc k < length (x # xs)" "f ((x # xs) ! Suc k) = Inl e" by simp_all
    then show ?thesis by blast
  qed
qed

text \<open>
  \<open>BigInt\<close> on some strings: a hexadecimal literal, white space around a decimal one, a
  sign, and three strings that are no integer literal or the empty one.
\<close>

lemma BigInt_examples:
  "BigInt ''0x64'' = Inr 100 \<and> BigInt '' 12 '' = Inr 12 \<and> BigInt ''-12'' = Inr (- 12) \<and>
   BigInt [] = Inr 0 \<and> BigInt ''0x'' = Inl SyntaxError \<and> BigInt ''12a'' = Inl SyntaxError \<and>
   BigInt ''-0x10'' = Inl SyntaxError"
  by code_simp

lemma bigint_toString_examples:
  "bigint_toString 16 200 = ''c8'' \<and> bigint_toString 16 100 = ''64'' \<and>
   bigint_toString 10 (- 1200) = ''-1200''"
  by code_simp

text \<open>
  \<open>BigInt\<close> reads back the decimal string that \<open>toString\<close> writes.
\<close>

lemma of_char_digit_char:
  assumes "d < 10"
  shows "(of_char (digit_char d) :: nat) = 48 + d"
proof -
  from assms have "d = 0 \<or> d = 1 \<or> d = 2 \<or> d = 3 \<or> d = 4 \<or> d = 5 \<or> d = 6 \<or> d = 7 \<or> d = 8 \<or> d = 9"
    by arith
  then show ?thesis
    by (elim disjE) (simp_all add: digit_char_def)
qed

lemma digit_char_decimal: "d < 10 \<Longrightarrow> is_decimal_digit (digit_char d)"
  by (simp add: is_decimal_digit_def of_char_digit_char)

lemma digit_val_digit_char: "d < 10 \<Longrightarrow> digit_val (digit_char d) = Some d"
  by (simp add: digit_val_def of_char_digit_char)

lemma digits_decimal:
  "digits 10 n \<noteq> [] \<and> (\<forall>c \<in> set (digits 10 n). is_decimal_digit c)"
proof (induction n rule: less_induct)
  case (less n)
  show ?case
  proof (cases "n < 10")
    case True
    then show ?thesis by (subst (1 2) digits.simps) (simp add: digit_char_decimal)
  next
    case False
    then have "n div 10 < n" by simp
    from less[OF this] False show ?thesis
      by (subst (1 2) digits.simps) (simp add: digit_char_decimal)
  qed
qed

lemma parse_digits_from_snoc:
  "parse_digits_from radix acc (xs @ [c]) =
     (case parse_digits_from radix acc xs of
        None \<Rightarrow> None
      | Some a \<Rightarrow> (case digit_val c of
                     None \<Rightarrow> None
                   | Some d \<Rightarrow> if d < radix then Some (a * radix + d) else None))"
  by (induction xs arbitrary: acc) (auto split: option.splits)

lemma parse_digits_from_digits: "parse_digits_from 10 0 (digits 10 n) = Some n"
proof (induction n rule: less_induct)
  case (less n)
  show ?case
  proof (cases "n < 10")
    case True
    then show ?thesis by (subst digits.simps) (simp add: digit_val_digit_char)
  next
    case False
    then have "n div 10 < n" by simp
    from less[OF this] False show ?thesis
      by (subst digits.simps) (simp add: parse_digits_from_snoc digit_val_digit_char)
  qed
qed

lemma parse_digits_digits: "parse_digits 10 (digits 10 n) = Some n"
  using digits_decimal[of n] by (simp add: parse_digits_def parse_digits_from_digits)

lemma decimal_not_special:
  assumes "is_decimal_digit c"
  shows "\<not> is_whitespace c" "c \<noteq> CHR ''-''" "c \<noteq> CHR ''+''"
    "c \<noteq> CHR ''x''" "c \<noteq> CHR ''X''" "c \<noteq> CHR ''o''" "c \<noteq> CHR ''O''"
    "c \<noteq> CHR ''b''" "c \<noteq> CHR ''B''"
  using assms by (auto simp: is_decimal_digit_def is_whitespace_def)

lemma js_trim_id:
  assumes "s \<noteq> []" "\<not> is_whitespace (hd s)" "\<not> is_whitespace (last s)"
  shows "js_trim s = s"
proof -
  have "dropWhile is_whitespace s = s"
    using assms by (cases s) auto
  moreover have "dropWhile is_whitespace (rev s) = rev s"
    using assms by (cases "rev s") (auto simp: last_rev[symmetric] hd_rev simp del: last_rev)
  ultimately show ?thesis by (simp add: js_trim_def)
qed

lemma StringToBigInt_digits: "StringToBigInt (digits 10 n) = Some (int n)"
proof -
  let ?s = "digits 10 n"
  from digits_decimal[of n] have ne: "?s \<noteq> []" and dec: "\<forall>c \<in> set ?s. is_decimal_digit c"
    by simp_all
  have "is_decimal_digit (hd ?s)" "is_decimal_digit (last ?s)"
    using ne dec by simp_all
  then have trim: "js_trim ?s = ?s"
    using ne by (intro js_trim_id) (simp_all add: decimal_not_special)
  have sd: "signed_decimal ?s = Some (int n)"
  proof -
    from ne obtain c cs where s: "?s = c # cs" by (cases ?s) auto
    with dec have c: "is_decimal_digit c" by simp
    have "parse_digits 10 (c # cs) = Some n"
      using parse_digits_digits[of n] s by simp
    with c show ?thesis
      unfolding s by (simp add: signed_decimal_def decimal_not_special)
  qed
  show ?thesis
  proof (cases ?s)
    case Nil
    with ne show ?thesis by simp
  next
    case (Cons c1 cs)
    show ?thesis
    proof (cases cs)
      case Nil
      with Cons sd trim show ?thesis by (simp add: StringToBigInt_def)
    next
      case Cons2: (Cons c2 ds)
      with Cons dec have "is_decimal_digit c2" by simp
      with Cons Cons2 sd trim show ?thesis
        by (simp add: StringToBigInt_def decimal_not_special)
    qed
  qed
qed

lemma StringToBigInt_minus_digits: "StringToBigInt (CHR ''-'' # digits 10 n) = Some (- int n)"
proof -
  let ?s = "digits 10 n"
  let ?t = "CHR ''-'' # ?s"
  from digits_decimal[of n] have ne: "?s \<noteq> []" and dec: "\<forall>c \<in> set ?s. is_decimal_digit c"
    by simp_all
  have "is_decimal_digit (last ?s)" "is_decimal_digit (hd ?s)"
    using ne dec by simp_all
  then have l: "\<not> is_whitespace (last ?t)" and h: "hd ?s \<noteq> CHR ''x''"
    using ne by (simp_all add: decimal_not_special)
  have "\<not> is_whitespace (hd ?t)" by (simp add: is_whitespace_def)
  then have trim: "js_trim ?t = ?t"
    using l by (intro js_trim_id) simp_all
  have sd: "signed_decimal ?t = Some (- int n)"
    by (simp add: signed_decimal_def parse_digits_digits)
  from ne obtain c2 ds where "?s = c2 # ds" by (cases ?s) auto
  with sd trim show ?thesis
    by (simp add: StringToBigInt_def)
qed

lemma BigInt_toString: "BigInt (bigint_toString 10 n) = Inr n"
  by (simp add: BigInt_def bigint_toString_def StringToBigInt_digits StringToBigInt_minus_digits)

section \<open>\<open>getFilteredLogs\<close>\<close>

lemma evmLog_of_Inr:
  assumes "evmLog_of Number_toString chainId log = Inr l"
  shows "BigInt (log_blockNumber log) = Inr (el_blockNumber l) \<and>
         l = \<lparr>el_blockNumber = el_blockNumber l, el_blockHash = log_blockHash log,
              el_transactionIndex = Number_toString (log_transactionIndex log),
              el_removed = log_removed log, el_address = log_address log,
              el_data = log_data log, el_topics = log_topics log,
              el_transactionHash = log_transactionHash log, el_logIndex = log_logIndex log,
              el_chainId = chainId\<rparr>"
  using assms by (auto simp: evmLog_of_def split: sum.splits)

text \<open>
  Claim C3, as stated, fails: \<open>getFilteredLogs\<close> never compares a block number with
  the bounds of the filter. For the range from 100 to 200, a provider that answers with a
  log of block \<open>0x1\<close> gets that log returned, with block number 1.
\<close>

theorem getFilteredLogs_out_of_range_counterexample:
  "getFilteredLogs (digits 10) 2 (example_logs_post ''0x1'') example_filter
     = Inr [\<lparr>el_blockNumber = 1, el_blockHash = ''0xb1'', el_transactionIndex = ''0'',
             el_removed = False, el_address = ''0xab'', el_data = ''0x'', el_topics = [''0xt1''],
             el_transactionHash = ''0x01'', el_logIndex = 0, el_chainId = 2\<rparr>] \<and>
   \<not> (flt_fromBlock example_filter \<le> 1)"
  by code_simp

text \<open>
  Claim C3, amended. When the call returns, it returns the logs of the provider's answer,
  one for one and in order: each returned log has the block number that \<open>BigInt\<close> reads
  from the answered string, the transaction index as a string, the chain's identifier,
  and every other field as answered. So the returned block numbers lie within the bounds
  of the filter exactly when those of the answer do.
\<close>

theorem getFilteredLogs_returns_answered_logs:
  assumes "post (parsedFilters_of logFilter) = Inr response"
    and "getFilteredLogs Number_toString chainId post logFilter = Inr logs"
  shows "length logs = length (answered_logs response) \<and>
         (\<forall>i < length logs.
            BigInt (log_blockNumber (answered_logs response ! i)) = Inr (el_blockNumber (logs ! i)) \<and>
            logs ! i =
              \<lparr>el_blockNumber = el_blockNumber (logs ! i),
               el_blockHash = log_blockHash (answered_logs response ! i),
               el_transactionIndex =
                 Number_toString (log_transactionIndex (answered_logs response ! i)),
               el_removed = log_removed (answered_logs response ! i),
               el_address = log_address (answered_logs response ! i),
               el_data = log_data (answered_logs response ! i),
               el_topics = log_topics (answered_logs response ! i),
               el_transactionHash = log_transactionHash (answered_logs response ! i),
               el_logIndex = log_logIndex (answered_logs response ! i),
               el_chainId = chainId\<rparr>) \<and>
         ((\<forall>log \<in> set logs. flt_fromBlock logFilter \<le> el_blockNumber log \<and>
                             el_blockNumber log \<le> flt_toBlock logFilter) \<longleftrightarrow>
          (\<forall>log \<in> set (answered_logs response).
              \<exists>n. BigInt (log_blockNumber log) = Inr n \<and>
                  flt_fromBlock logFilter \<le> n \<and> n \<le> flt_toBlock logFilter))"
proof -
  let ?raw = "answered_logs response"
  have mt: "map_throwing (evmLog_of Number_toString chainId) ?raw = Inr logs"
    using assms by (auto simp: getFilteredLogs_def answered_logs_def split: option.splits)
  then have m: "map (evmLog_of Number_toString chainId) ?raw = map Inr logs"
    by (simp add: map_throwing_Inr_iff)
  have len: "length logs = length ?raw"
    using m by (metis length_map)
  have each: "evmLog_of Number_toString chainId (?raw ! i) = Inr (logs ! i)"
    if "i < length ?raw" for i
    using m that len by (metis nth_map)
  have nth: "BigInt (log_blockNumber (?raw ! i)) = Inr (el_blockNumber (logs ! i))"
    if "i < length ?raw" for i
    using evmLog_of_Inr[OF each[OF that]] by simp
  have fields: "\<forall>i < length logs.
            BigInt (log_blockNumber (?raw ! i)) = Inr (el_blockNumber (logs ! i)) \<and>
            logs ! i =
              \<lparr>el_blockNumber = el_blockNumber (logs ! i),
               el_blockHash = log_blockHash (?raw ! i),
               el_transactionIndex = Number_toString (log_transactionIndex (?raw ! i)),
               el_removed = log_removed (?raw ! i),
               el_address = log_address (?raw ! i),
               el_data = log_data (?raw ! i),
               el_topics = log_topics (?raw ! i),
               el_transactionHash = log_transactionHash (?raw ! i),
               el_logIndex = log_logIndex (?raw ! i),
               el_chainId = chainId\<rparr>"
    using evmLog_of_Inr[OF each] len by simp
  have "(\<forall>log \<in> set logs. flt_fromBlock logFilter \<le> el_blockNumber log \<and>
                             el_blockNumber log \<le> flt_toBlock logFilter) \<longleftrightarrow>
        (\<forall>i < length ?raw. flt_fromBlock logFilter \<le> el_blockNumber (logs ! i) \<and>
                             el_blockNumber (logs ! i) \<le> flt_toBlock logFilter)"
    by (simp add: all_set_conv_all_nth len)
  also have "\<dots> \<longleftrightarrow>
        (\<forall>i < length ?raw. \<exists>n. BigInt (log_blockNumber (?raw ! i)) = Inr n \<and>
                  flt_fromBlock logFilter \<le> n \<and> n \<le> flt_toBlock logFilter)"
    by (simp add: nth)
  also have "\<dots> \<longleftrightarrow>
        (\<forall>log \<in> set ?raw. \<exists>n. BigInt (log_blockNumber log) = Inr n \<and>
                  flt_fromBlock logFilter \<le> n \<and> n \<le> flt_toBlock logFilter)"
    by (simp add: all_set_conv_all_nth)
  finally show ?thesis using len fields by blast
qed

theorem getFilteredLogs_returns_answered_logs_witness:
  "getFilteredLogs (digits 10) 2 (example_logs_post ''0x64'') example_filter
     = Inr [\<lparr>el_blockNumber = 100, el_blockHash = ''0xb1'', el_transactionIndex = ''0'',
             el_removed = False, el_address = ''0xab'', el_data = ''0x'', el_topics = [''0xt1''],
             el_transactionHash = ''0x01'', el_logIndex = 0, el_chainId = 2\<rparr>] \<and>
   BigInt (log_blockNumber (example_log ''0x64'')) = Inr 100"
proof -
  have h1: "example_logs_post ''0x64'' (parsedFilters_of example_filter)
              = Inr (Some \<lparr>lr_result = Some [example_log ''0x64''], lr_error = None\<rparr>)"
    by (simp add: example_logs_post_def)
  have h2: "getFilteredLogs (digits 10) 2 (example_logs_post ''0x64'') example_filter
     = Inr [\<lparr>el_blockNumber = 100, el_blockHash = ''0xb1'', el_transactionIndex = ''0'',
             el_removed = False, el_address = ''0xab'', el_data = ''0x'', el_topics = [''0xt1''],
             el_transactionHash = ''0x01'', el_logIndex = 0, el_chainId = 2\<rparr>]"
    by code_simp
  from getFilteredLogs_returns_answered_logs[where post = "example_logs_post ''0x64''", OF h1 h2] h2
  show ?thesis by (simp add: answered_logs_def)
qed

section \<open>\<open>getTransactionReceipt\<close>\<close>

lemma collect_batches_all:
  "map post (batch_requests id0 batches) = map Inr answers \<Longrightarrow>
     collect_batches post id0 batches acc
       = Inr (acc @ concat (map (List.map_filter (\<lambda>result. result)) answers))"
proof (induction batches arbitrary: id0 acc answers)
  case Nil
  then show ?case by simp
next
  case (Cons batch batches)
  from Cons.prems obtain a rest where
    answers: "answers = a # rest" and
    here: "post (receipt_requests id0 batch) = Inr a" and
    tail: "map post (batch_requests (id0 + length batch) batches) = map Inr rest"
    by (cases answers) auto
  from Cons.IH[OF tail] here answers show ?case by simp
qed

lemma map_throwing_receipts_parse:
  assumes "\<forall>r \<in> set rs. \<exists>result. res_result r = Some result \<and> truthy (rr_status result) \<and>
                                  truthy (rr_transactionHash result)"
  shows "map_throwing receipt_of_response rs =
           Inr (map (\<lambda>r. \<lparr>rt_status = the (rr_status (the (res_result r))),
                            rt_transactionHash = the (rr_transactionHash (the (res_result r))),
                            rt_logs = rr_logs (the (res_result r))\<rparr>) rs)"
  using assms by (induction rs) (auto simp: receipt_of_response_def)

lemma receipt_of_response_error:
  "receipt_of_response r = Inl e \<Longrightarrow> e = UnableToParseReceipt"
  by (auto simp: receipt_of_response_def split: option.splits if_splits)

lemma map_throwing_receipts_fail:
  assumes "\<exists>r \<in> set rs. \<not> (\<exists>result. res_result r = Some result \<and> truthy (rr_status result) \<and>
                                  truthy (rr_transactionHash result))"
  shows "map_throwing receipt_of_response rs = Inl UnableToParseReceipt"
  using assms
proof (induction rs)
  case Nil
  then show ?case by simp
next
  case (Cons r rs)
  show ?case
  proof (cases "receipt_of_response r")
    case (Inl e)
    then show ?thesis using receipt_of_response_error[OF Inl] by simp
  next
    case (Inr y)
    then have "\<exists>result. res_result r = Some result \<and> truthy (rr_status result) \<and>
                 truthy (rr_transactionHash result)"
      by (auto simp: receipt_of_response_def split: option.splits if_splits)
    with Cons.prems have "\<exists>r \<in> set rs. \<not> (\<exists>result. res_result r = Some result \<and>
            truthy (rr_status result) \<and> truthy (rr_transactionHash result))"
      by auto
    from Cons.IH[OF this] Inr show ?thesis by simp
  qed
qed

lemma lookup_receipts_by_hash:
  "map_of (receipts_by_hash receipts) h
     = map_of (rev (map (\<lambda>receipt. (rt_transactionHash receipt, receipt)) receipts)) h"
  by (simp add: receipts_by_hash_def map_of_foldl_update split: option.splits)

lemma divideIntoBatches_two: "divideIntoBatches [''0x01'', ''0x02''] 10 = [[''0x01'', ''0x02'']]"
  by (simp add: divideIntoBatches_def)

text \<open>
  Claim C6, as stated, fails: a response that is \<open>null\<close> is skipped by the test
  \<open>if (result)\<close> before anything is parsed. For two hashes and the answer
  \<open>[null, receipt of 0x02]\<close> the call succeeds with a record of one entry; the response
  for \<open>0x01\<close> is dropped without an error.
\<close>

theorem getTransactionReceipt_null_dropped_counterexample:
  "getTransactionReceipt example_receipts_post [''0x01'', ''0x02'']
     = Inr [(''0x02'', \<lparr>rt_status = ''0x1'', rt_transactionHash = ''0x02'', rt_logs = Some []\<rparr>)]"
  by (simp add: getTransactionReceipt_def divideIntoBatches_two example_receipts_post_def map_filter_def
       example_receipt_response_def receipt_of_response_def truthy_def receipts_by_hash_def)

text \<open>
  Claim C6, amended. Let every batch be answered, and let \<open>combined\<close> be the responses
  that are not \<open>null\<close>, over all batches in order. If none is left, the call fails. If
  one of them has no result, no status or no transaction hash, the whole call fails and
  returns no record. Otherwise the call succeeds, and the returned record holds, under
  each transaction hash, the receipt of the last response with that hash: an earlier
  response with the same hash is overwritten.
\<close>

theorem getTransactionReceipt_outcome:
  assumes posted: "map post (batch_requests 1 (divideIntoBatches hashNumbers 10)) = map Inr answers"
    and combined: "combined = concat (map (List.map_filter (\<lambda>result. result)) answers)"
  shows
    "(combined = [] \<longrightarrow> getTransactionReceipt post hashNumbers = Inl UnableToParseReceipts) \<and>
     ((\<exists>r \<in> set combined. \<not> (\<exists>result. res_result r = Some result \<and> truthy (rr_status result) \<and>
                                   truthy (rr_transactionHash result))) \<longrightarrow>
        getTransactionReceipt post hashNumbers = Inl UnableToParseReceipt) \<and>
     (combined \<noteq> [] \<and>
      (\<forall>r \<in> set combined. \<exists>result. res_result r = Some result \<and> truthy (rr_status result) \<and>
                                   truthy (rr_transactionHash result)) \<longrightarrow>
        (\<exists>m. getTransactionReceipt post hashNumbers = Inr m \<and>
           distinct (map fst m) \<and>
           (\<forall>h. map_of m h =
              map_of (rev (map (\<lambda>r. (the (rr_transactionHash (the (res_result r))),
                                       \<lparr>rt_status = the (rr_status (the (res_result r))),
                                        rt_transactionHash =
                                          the (rr_transactionHash (the (res_result r))),
                                        rt_logs = rr_logs (the (res_result r))\<rparr>))
                               combined)) h)))"
proof -
  have c: "collect_batches post 1 (divideIntoBatches hashNumbers 10) [] = Inr combined"
    using collect_batches_all[OF posted, of "[]"] combined by simp
  have empty: "getTransactionReceipt post hashNumbers = Inl UnableToParseReceipts"
    if "combined = []"
    using c that by (simp add: getTransactionReceipt_def)
  have bad: "getTransactionReceipt post hashNumbers = Inl UnableToParseReceipt"
    if b: "\<exists>r \<in> set combined. \<not> (\<exists>result. res_result r = Some result \<and>
              truthy (rr_status result) \<and> truthy (rr_transactionHash result))"
  proof -
    from b have "combined \<noteq> []" by auto
    with c map_throwing_receipts_fail[OF b] show ?thesis
      by (simp add: getTransactionReceipt_def)
  qed
  have good: "\<exists>m. getTransactionReceipt post hashNumbers = Inr m \<and>
           distinct (map fst m) \<and>
           (\<forall>h. map_of m h =
              map_of (rev (map (\<lambda>r. (the (rr_transactionHash (the (res_result r))),
                                       \<lparr>rt_status = the (rr_status (the (res_result r))),
                                        rt_transactionHash =
                                          the (rr_transactionHash (the (res_result r))),
                                        rt_logs = rr_logs (the (res_result r))\<rparr>))
                               combined)) h)"
    if ne: "combined \<noteq> []" and
      ok: "\<forall>r \<in> set combined. \<exists>result. res_result r = Some result \<and>
              truthy (rr_status result) \<and> truthy (rr_transactionHash result)"
  proof -
    let ?parse = "\<lambda>r. \<lparr>rt_status = the (rr_status (the (res_result r))),
                       rt_transactionHash = the (rr_transactionHash (the (res_result r))),
                       rt_logs = rr_logs (the (res_result r))\<rparr>"
    let ?m = "receipts_by_hash (map ?parse combined)"
    have r: "getTransactionReceipt post hashNumbers = Inr ?m"
      using c ne map_throwing_receipts_parse[OF ok] by (simp add: getTransactionReceipt_def)
    have d: "distinct (map fst ?m)"
      by (simp add: receipts_by_hash_def distinct_foldl_update)
    have l: "map_of ?m h =
              map_of (rev (map (\<lambda>r. (the (rr_transactionHash (the (res_result r))), ?parse r))
                               combined)) h" for h
      by (simp add: lookup_receipts_by_hash comp_def)
    from r d l show ?thesis by blast
  qed
  from empty bad good show ?thesis by blast
qed

theorem getTransactionReceipt_outcome_witness:
  "getTransactionReceipt example_receipts_post [''0x01'', ''0x02'']
     = Inr [(''0x02'', \<lparr>rt_status = ''0x1'', rt_transactionHash = ''0x02'', rt_logs = Some []\<rparr>)] \<and>
   getTransactionReceipt null_receipts_post [''0x01'', ''0x02''] = Inl UnableToParseReceipts \<and>
   getTransactionReceipt unparsed_receipts_post [''0x01'', ''0x02''] = Inl UnableToParseReceipt \<and>
   getTransactionReceipt duplicate_receipts_post [''0x01'', ''0x02'']
     = Inr [(''0x02'', \<lparr>rt_status = ''0x1'', rt_transactionHash = ''0x02'', rt_logs = Some []\<rparr>)]"
proof -
  let ?ok = "example_receipt_response ''0x02''"
  let ?bad = "\<lparr>res_result = None,
               res_error = Some \<lparr>eb_code = - 32000, eb_message = ''not found''\<rparr>\<rparr>"
  have b: "batch_requests 1 (divideIntoBatches [''0x01'', ''0x02''] 10)
             = [receipt_requests 1 [''0x01'', ''0x02'']]"
    by (simp add: divideIntoBatches_two)
  have p1: "map example_receipts_post (batch_requests 1 (divideIntoBatches [''0x01'', ''0x02''] 10))
              = map Inr [[None, Some ?ok]]"
    unfolding b by (simp add: example_receipts_post_def)
  have c1: "[?ok] = concat (map (List.map_filter (\<lambda>result. result)) [[None, Some ?ok]])"
    by (simp add: map_filter_def)
  have ok: "\<exists>result. res_result ?ok = Some result \<and> truthy (rr_status result) \<and>
              truthy (rr_transactionHash result)"
    by (simp add: example_receipt_response_def truthy_def)
  have e1: "getTransactionReceipt example_receipts_post [''0x01'', ''0x02'']
     = Inr [(''0x02'', \<lparr>rt_status = ''0x1'', rt_transactionHash = ''0x02'', rt_logs = Some []\<rparr>)]"
    by code_simp
  from getTransactionReceipt_outcome[OF p1 c1] ok e1 have w1:
    "getTransactionReceipt example_receipts_post [''0x01'', ''0x02'']
     = Inr [(''0x02'', \<lparr>rt_status = ''0x1'', rt_transactionHash = ''0x02'', rt_logs = Some []\<rparr>)]"
    by simp
  have p2: "map null_receipts_post (batch_requests 1 (divideIntoBatches [''0x01'', ''0x02''] 10))
              = map Inr [[None, None]]"
    unfolding b by (simp add: null_receipts_post_def)
  have c2: "[] = concat (map (List.map_filter (\<lambda>result. result))
                           [[None, None :: ResultTransactionReceipt option]])"
    by (simp add: map_filter_def)
  from getTransactionReceipt_outcome[OF p2 c2] have w2:
    "getTransactionReceipt null_receipts_post [''0x01'', ''0x02''] = Inl UnableToParseReceipts"
    by simp
  have p3: "map unparsed_receipts_post (batch_requests 1 (divideIntoBatches [''0x01'', ''0x02''] 10))
              = map Inr [[Some ?bad, Some ?ok]]"
    unfolding b by (simp add: unparsed_receipts_post_def)
  have c3: "[?bad, ?ok] = concat (map (List.map_filter (\<lambda>result. result)) [[Some ?bad, Some ?ok]])"
    by (simp add: map_filter_def)
  from getTransactionReceipt_outcome[OF p3 c3] have w3:
    "getTransactionReceipt unparsed_receipts_post [''0x01'', ''0x02''] = Inl UnableToParseReceipt"
    by simp
  have w4: "getTransactionReceipt duplicate_receipts_post [''0x01'', ''0x02'']
     = Inr [(''0x02'', \<lparr>rt_status = ''0x1'', rt_transactionHash = ''0x02'', rt_logs = Some []\<rparr>)]"
    by code_simp
  from w1 w2 w3 w4 show ?thesis by simp
qed

section \<open>\<open>getBlocks\<close>\<close>

lemma block_of_unavailable_hash:
  assumes "block_unavailable response"
    and "block_of_response Number_of now reqs idx (Some response) = Inr b"
  shows "blk_hash b = []"
  using assms by (auto simp: block_of_response_def split: sum.splits)

lemma block_of_unavailable_Inr:
  assumes "block_unavailable response"
    and "block_of_response Number_of now reqs idx (Some response) = Inr b"
  shows "\<exists>n. BigInt (resp_id response) = Inr n \<and>
             b = \<lparr>blk_number = n, blk_hash = [], blk_timestamp = now, blk_transactions = None\<rparr>"
  using assms by (auto simp: block_of_response_def split: sum.splits)

lemma block_of_response_empty_hash:
  assumes "block_of_response Number_of now reqs idx r = Inr b" and "blk_hash b = []"
  shows "\<exists>response. r = Some response \<and> block_unavailable response"
  using assms
  by (auto simp: block_of_response_def truthy_def
           split: option.splits sum.splits if_splits js_opt.splits)

text \<open>What the callback returns for a response, when it returns.\<close>

lemma block_of_response_Inr_cases:
  assumes "block_of_response Number_of now reqs idx r = Inr b"
  shows "\<exists>response. r = Some response \<and>
           (if block_unavailable response
            then \<exists>n. BigInt (resp_id response) = Inr n \<and>
                   b = \<lparr>blk_number = n, blk_hash = [], blk_timestamp = now,
                         blk_transactions = None\<rparr>
            else \<exists>result n. resp_result response = Val result \<and>
                   truthy (rb_hash result) \<and> truthy (rb_number result) \<and>
                   truthy (rb_timestamp result) \<and>
                   BigInt (the (rb_number result)) = Inr n \<and>
                   b = \<lparr>blk_number = n, blk_hash = the (rb_hash result),
                         blk_timestamp = Number_of (the (rb_timestamp result)),
                         blk_transactions = None\<rparr>)"
  using assms
  by (auto simp: block_of_response_def split: option.splits sum.splits if_splits js_opt.splits)

lemma lookup_blocks_by_hash:
  "map_of (blocks_by_hash blocks) h = map_of (rev (map (\<lambda>b. (blk_hash b, b)) blocks)) h"
  by (simp add: blocks_by_hash_def map_of_foldl_update split: option.splits)

lemma getBlocks_Inr_blocks:
  assumes "blockNumbers \<noteq> []"
    and "post (map block_request_of blockNumbers) = Inr (Some results)"
    and "getBlocks Number_of clock post blockNumbers = Inr m"
  shows "\<exists>blocks. m = blocks_by_hash blocks \<and> length blocks = length results \<and>
           (\<forall>k < length results.
              block_of_response Number_of (clock k) (map block_request_of blockNumbers) k
                (results ! k) = Inr (blocks ! k))"
proof -
  let ?f = "\<lambda>idx r. block_of_response Number_of (clock idx) (map block_request_of blockNumbers) idx r"
  from assms obtain blocks where
    mt: "map_throwing (\<lambda>(idx, r). ?f idx r) (enumerate_from0 results) = Inr blocks" and
    m: "m = blocks_by_hash blocks"
    by (auto simp: getBlocks_def Let_def split: sum.splits if_splits)
  from map_throwing_enumerate[OF mt] m show ?thesis by blast
qed

lemma getBlocks_Inl_response:
  assumes "blockNumbers \<noteq> []"
    and "post (map block_request_of blockNumbers) = Inr (Some results)"
    and "results \<noteq> []"
    and "getBlocks Number_of clock post blockNumbers = Inl e"
  shows "\<exists>k < length results.
           block_of_response Number_of (clock k) (map block_request_of blockNumbers) k
             (results ! k) = Inl e"
proof -
  let ?f = "\<lambda>idx r. block_of_response Number_of (clock idx) (map block_request_of blockNumbers) idx r"
  from assms have "map_throwing (\<lambda>(idx, r). ?f idx r) (enumerate_from0 results) = Inl e"
    by (auto simp: getBlocks_def Let_def split: sum.splits if_splits)
  from map_throwing_Inl_index[OF this] obtain k where
    "k < length (enumerate_from0 results)"
    "(\<lambda>(idx, r). ?f idx r) (enumerate_from0 results ! k) = Inl e"
    by blast
  then show ?thesis
    by (auto simp: length_enumerate_from0 enumerate_from0_nth)
qed

text \<open>
  The entry under the empty key is the degraded block of the last unavailable response.
\<close>

lemma empty_key_last_degraded:
  assumes len: "length blocks = length results"
    and tie: "\<forall>k < length results.
                block_of_response Number_of (clock k) reqs k (results ! k) = Inr (blocks ! k)"
    and i: "i < length results" "results ! i = Some ri" "block_unavailable ri"
  shows "\<exists>k rk nk. i \<le> k \<and> k < length results \<and> results ! k = Some rk \<and>
           block_unavailable rk \<and> BigInt (resp_id rk) = Inr nk \<and>
           (\<forall>k' r. k < k' \<and> k' < length results \<and> results ! k' = Some r
                    \<longrightarrow> \<not> block_unavailable r) \<and>
           map_of (blocks_by_hash blocks) [] =
             Some \<lparr>blk_number = nk, blk_hash = [], blk_timestamp = clock k,
                   blk_transactions = None\<rparr>"
proof -
  have hi: "blk_hash (blocks ! i) = []"
    using tie i block_of_unavailable_hash by (metis (no_types, lifting))
  from last_index_ex[of i "length blocks" "\<lambda>k. blk_hash (blocks ! k) = []"] i(1) hi len
  obtain k where k: "i \<le> k" "k < length blocks" "blk_hash (blocks ! k) = []"
    and last: "\<forall>k'. k < k' \<and> k' < length blocks \<longrightarrow> blk_hash (blocks ! k') \<noteq> []"
    by auto
  have kr: "k < length results" using k(2) len by simp
  have bk: "block_of_response Number_of (clock k) reqs k (results ! k) = Inr (blocks ! k)"
    using tie kr by simp
  from block_of_response_empty_hash[OF bk k(3)] obtain rk where
    rk: "results ! k = Some rk" "block_unavailable rk"
    by blast
  have "block_of_response Number_of (clock k) reqs k (Some rk) = Inr (blocks ! k)"
    using bk rk(1) by simp
  from block_of_unavailable_Inr[OF rk(2) this] obtain nk where
    nk: "BigInt (resp_id rk) = Inr nk"
        "blocks ! k = \<lparr>blk_number = nk, blk_hash = [], blk_timestamp = clock k,
                        blk_transactions = None\<rparr>"
    by blast
  have later: "\<not> block_unavailable r"
    if "k < k'" "k' < length results" "results ! k' = Some r" for k' r
  proof
    assume "block_unavailable r"
    moreover have "block_of_response Number_of (clock k') reqs k' (Some r) = Inr (blocks ! k')"
      using tie that by (metis (no_types, lifting))
    ultimately have "blk_hash (blocks ! k') = []"
      by (rule block_of_unavailable_hash)
    with last that len show False by simp
  qed
  have "map_of (rev (map (\<lambda>b. (blk_hash b, b)) blocks)) [] = Some (blocks ! k)"
    using k(2,3) last by (intro map_of_rev_last_index) simp_all
  then have "map_of (blocks_by_hash blocks) [] = Some (blocks ! k)"
    by (simp add: lookup_blocks_by_hash)
  with k(1) kr rk nk later show ?thesis by (metis (no_types, lifting))
qed

text \<open>
  The identifier of the request for a block number reads back as that number, so a
  response that echoes it is numbered with the requested number.
\<close>

lemma echoed_id_reads_requested_number: "BigInt (req_id (block_request_of n)) = Inr n"
  by (simp add: block_request_of_def Let_def BigInt_toString)

text \<open>
  Claim C5, as stated, fails: the number of the degraded block is \<open>BigInt(response.id)\<close>,
  whatever the provider wrote there. A response with a \<open>null\<close> result and the
  identifier \<open>abc\<close> aborts the call with a SyntaxError; one with the identifier \<open>7\<close>
  gives a degraded block numbered 7, which was not requested.
\<close>

theorem getBlocks_unavailable_block_id_counterexample:
  "resp_result (null_result_response ''abc'') = Null \<and>
   getBlocks example_Number example_clock
     (example_blocks_post [Some (null_result_response ''abc''), Some block_20_response])
     [10, 20] = Inl SyntaxError \<and>
   resp_result (null_result_response ''7'') = Null \<and>
   getBlocks example_Number example_clock
     (example_blocks_post [Some (null_result_response ''7''), Some block_20_response])
     [10, 20]
     = Inr [([], \<lparr>blk_number = 7, blk_hash = [], blk_timestamp = 1700000000000,
                  blk_transactions = None\<rparr>),
            (''0xh20'', \<lparr>blk_number = 20, blk_hash = ''0xh20'', blk_timestamp = 100,
                         blk_transactions = None\<rparr>)]"
  by code_simp

text \<open>
  Claim C5, amended. Let a response have a \<open>null\<close> result or an error of code 6969,
  and an identifier that reads as the integer \<open>n\<close> (as the echoed identifier of the
  request for \<open>n\<close> does). It is mapped to the block with the empty hash, the number
  \<open>n\<close> and the reading of the clock as timestamp, and it does not abort the call: either
  the call fails with the exception of another response, or it succeeds. Then every
  response has its block, a degraded one for an unavailable response and otherwise the
  one with the hash, the number and the timestamp of its result, and the returned record
  holds under each hash the block of the last response with that hash. Under the empty
  hash that is the degraded block of the last unavailable response: this one, if none
  follows it.
\<close>

theorem getBlocks_unavailable_block_degraded:
  assumes nonempty: "blockNumbers \<noteq> []"
    and answer: "post (map block_request_of blockNumbers) = Inr (Some results)"
    and position: "i < length results" "results ! i = Some response"
    and unavailable:
      "resp_result response = Null \<or> (\<exists>e. resp_error response = Some e \<and> eb_code e = 6969)"
    and ident: "BigInt (resp_id response) = Inr n"
  shows
    "(\<exists>j e. j < length results \<and> j \<noteq> i \<and>
        block_of_response Number_of (clock j) (map block_request_of blockNumbers) j (results ! j)
          = Inl e \<and>
        getBlocks Number_of clock post blockNumbers = Inl e)
     \<or>
     (\<exists>m blocks.
        getBlocks Number_of clock post blockNumbers = Inr m \<and>
        length blocks = length results \<and>
        (\<forall>k < length results. \<exists>rk. results ! k = Some rk \<and>
           (if block_unavailable rk
            then \<exists>nk. BigInt (resp_id rk) = Inr nk \<and>
                   blocks ! k = \<lparr>blk_number = nk, blk_hash = [], blk_timestamp = clock k,
                                  blk_transactions = None\<rparr>
            else \<exists>result nk. resp_result rk = Val result \<and>
                   truthy (rb_hash result) \<and> truthy (rb_number result) \<and>
                   truthy (rb_timestamp result) \<and>
                   BigInt (the (rb_number result)) = Inr nk \<and>
                   blocks ! k = \<lparr>blk_number = nk, blk_hash = the (rb_hash result),
                                  blk_timestamp = Number_of (the (rb_timestamp result)),
                                  blk_transactions = None\<rparr>)) \<and>
        blocks ! i = \<lparr>blk_number = n, blk_hash = [], blk_timestamp = clock i,
                      blk_transactions = None\<rparr> \<and>
        (\<forall>h. map_of m h = map_of (rev (map (\<lambda>b. (blk_hash b, b)) blocks)) h) \<and>
        (\<exists>k rk nk. i \<le> k \<and> k < length results \<and> results ! k = Some rk \<and>
           block_unavailable rk \<and> BigInt (resp_id rk) = Inr nk \<and>
           (\<forall>k' r. k < k' \<and> k' < length results \<and> results ! k' = Some r
                    \<longrightarrow> \<not> block_unavailable r) \<and>
           map_of m [] = Some \<lparr>blk_number = nk, blk_hash = [], blk_timestamp = clock k,
                               blk_transactions = None\<rparr>) \<and>
        ((\<forall>k' r. i < k' \<and> k' < length results \<and> results ! k' = Some r
                  \<longrightarrow> \<not> block_unavailable r) \<longrightarrow>
         map_of m [] = Some \<lparr>blk_number = n, blk_hash = [], blk_timestamp = clock i,
                             blk_transactions = None\<rparr>))"
proof -
  let ?reqs = "map block_request_of blockNumbers"
  let ?f = "\<lambda>idx r. block_of_response Number_of (clock idx) ?reqs idx r"
  let ?degraded = "\<lparr>blk_number = n, blk_hash = [], blk_timestamp = clock i,
                     blk_transactions = None\<rparr>"
  have un: "block_unavailable response"
    using unavailable by (auto simp: block_unavailable_def)
  have at_i: "?f i (results ! i) = Inr ?degraded"
    using un ident position(2) by (simp add: block_of_response_def)
  have ne: "results \<noteq> []" using position(1) by auto
  show ?thesis
  proof (cases "getBlocks Number_of clock post blockNumbers")
    case (Inl e)
    from getBlocks_Inl_response[OF nonempty answer ne Inl] obtain j where
      j: "j < length results" "?f j (results ! j) = Inl e"
      by blast
    with at_i have "j \<noteq> i" by auto
    with j Inl show ?thesis by blast
  next
    case (Inr m)
    from getBlocks_Inr_blocks[OF nonempty answer Inr] obtain blocks where
      m: "m = blocks_by_hash blocks" and
      len: "length blocks = length results" and
      tie: "\<forall>k < length results. ?f k (results ! k) = Inr (blocks ! k)"
      by blast
    have bi: "blocks ! i = ?degraded"
      using tie position(1) at_i by simp
    have look: "\<forall>h. map_of m h = map_of (rev (map (\<lambda>b. (blk_hash b, b)) blocks)) h"
      by (simp add: m lookup_blocks_by_hash)
    from empty_key_last_degraded[OF len tie position un] obtain k rk nk where
      k: "i \<le> k" "k < length results" "results ! k = Some rk" "block_unavailable rk"
         "BigInt (resp_id rk) = Inr nk"
         "\<forall>k' r. k < k' \<and> k' < length results \<and> results ! k' = Some r
                   \<longrightarrow> \<not> block_unavailable r"
         "map_of m [] = Some \<lparr>blk_number = nk, blk_hash = [], blk_timestamp = clock k,
                               blk_transactions = None\<rparr>"
      unfolding m by blast
    have only: "map_of m [] = Some ?degraded"
      if none: "\<forall>k' r. i < k' \<and> k' < length results \<and> results ! k' = Some r
                        \<longrightarrow> \<not> block_unavailable r"
    proof -
      have "k = i"
      proof (rule ccontr)
        assume "k \<noteq> i"
        with k(1) have "i < k" by simp
        with none k(2,3,4) show False by blast
      qed
      with k(3,5,7) position(2) ident show ?thesis by simp
    qed
    have each: "\<forall>k < length results. \<exists>rk. results ! k = Some rk \<and>
           (if block_unavailable rk
            then \<exists>nk. BigInt (resp_id rk) = Inr nk \<and>
                   blocks ! k = \<lparr>blk_number = nk, blk_hash = [], blk_timestamp = clock k,
                                  blk_transactions = None\<rparr>
            else \<exists>result nk. resp_result rk = Val result \<and>
                   truthy (rb_hash result) \<and> truthy (rb_number result) \<and>
                   truthy (rb_timestamp result) \<and>
                   BigInt (the (rb_number result)) = Inr nk \<and>
                   blocks ! k = \<lparr>blk_number = nk, blk_hash = the (rb_hash result),
                                  blk_timestamp = Number_of (the (rb_timestamp result)),
                                  blk_transactions = None\<rparr>)"
    proof (intro allI impI)
      fix k assume "k < length results"
      with tie have "?f k (results ! k) = Inr (blocks ! k)" by simp
      then show "\<exists>rk. results ! k = Some rk \<and>
           (if block_unavailable rk
            then \<exists>nk. BigInt (resp_id rk) = Inr nk \<and>
                   blocks ! k = \<lparr>blk_number = nk, blk_hash = [], blk_timestamp = clock k,
                                  blk_transactions = None\<rparr>
            else \<exists>result nk. resp_result rk = Val result \<and>
                   truthy (rb_hash result) \<and> truthy (rb_number result) \<and>
                   truthy (rb_timestamp result) \<and>
                   BigInt (the (rb_number result)) = Inr nk \<and>
                   blocks ! k = \<lparr>blk_number = nk, blk_hash = the (rb_hash result),
                                  blk_timestamp = Number_of (the (rb_timestamp result)),
                                  blk_transactions = None\<rparr>)"
        by (rule block_of_response_Inr_cases)
    qed
    from Inr len each bi look k only show ?thesis
      by (intro disjI2 exI[of _ m] exI[of _ blocks]) blast
  qed
qed

theorem getBlocks_unavailable_block_degraded_witness:
  "getBlocks example_Number example_clock
     (example_blocks_post [Some (null_result_response ''10''), Some block_20_response])
     [10, 20]
     = Inr [([], \<lparr>blk_number = 10, blk_hash = [], blk_timestamp = 1700000000000,
                  blk_transactions = None\<rparr>),
            (''0xh20'', \<lparr>blk_number = 20, blk_hash = ''0xh20'', blk_timestamp = 100,
                         blk_transactions = None\<rparr>)] \<and>
   map_of [([], \<lparr>blk_number = 10 :: int, blk_hash = [], blk_timestamp = 1700000000000 :: int,
                  blk_transactions = None\<rparr>),
            (''0xh20'', \<lparr>blk_number = 20, blk_hash = ''0xh20'', blk_timestamp = 100,
                         blk_transactions = None\<rparr>)] []
     = Some \<lparr>blk_number = 10, blk_hash = [], blk_timestamp = example_clock 0,
             blk_transactions = None\<rparr>"
proof -
  let ?results = "[Some (null_result_response ''10''), Some block_20_response]"
  let ?m = "[([], \<lparr>blk_number = 10 :: int, blk_hash = [], blk_timestamp = 1700000000000 :: int,
                  blk_transactions = None\<rparr>),
            (''0xh20'', \<lparr>blk_number = 20, blk_hash = ''0xh20'', blk_timestamp = 100,
                         blk_transactions = None\<rparr>)]"
  have h1: "[10, 20 :: int] \<noteq> []" by simp
  have h2: "example_blocks_post ?results (map block_request_of [10, 20]) = Inr (Some ?results)"
    by (simp add: example_blocks_post_def)
  have h3: "0 < length ?results" by simp
  have h4: "?results ! 0 = Some (null_result_response ''10'')" by simp
  have h5: "resp_result (null_result_response ''10'') = Null \<or>
            (\<exists>e. resp_error (null_result_response ''10'') = Some e \<and> eb_code e = 6969)"
    by (simp add: null_result_response_def)
  have echo: "resp_id (null_result_response ''10'') = req_id (block_request_of 10)"
    by code_simp
  have h6: "BigInt (resp_id (null_result_response ''10'')) = Inr 10"
    unfolding echo by (rule echoed_id_reads_requested_number)
  have e: "getBlocks example_Number example_clock (example_blocks_post ?results) [10, 20] = Inr ?m"
    by code_simp
  have n20: "\<not> block_unavailable block_20_response"
    by (simp add: block_unavailable_def block_20_response_def)
  have later: "\<forall>k' r. 0 < k' \<and> k' < length ?results \<and> ?results ! k' = Some r
                 \<longrightarrow> \<not> block_unavailable r"
    using n20 by (auto simp: less_Suc_eq)
  from getBlocks_unavailable_block_degraded[where Number_of = example_Number and clock = example_clock
         and post = "example_blocks_post ?results" and results = ?results,
         OF h1 h2 h3 h4 h5 h6]
  have "map_of ?m [] = Some \<lparr>blk_number = 10, blk_hash = [], blk_timestamp = example_clock 0,
                               blk_transactions = None\<rparr>"
    unfolding e using later by blast
  with e show ?thesis by simp
qed

lemma length_blocks_by_hash:
  "length (blocks_by_hash blocks) = card (blk_hash ` set blocks)"
proof -
  have d: "distinct (map fst (blocks_by_hash blocks))"
    by (simp add: blocks_by_hash_def distinct_foldl_update)
  have "length (blocks_by_hash blocks) = length (map fst (blocks_by_hash blocks))"
    by simp
  also have "\<dots> = card (set (map fst (blocks_by_hash blocks)))"
    using d by (simp only: distinct_card)
  also have "\<dots> = card (blk_hash ` set blocks)"
    by (simp add: blocks_by_hash_def keys_foldl_update)
  finally show ?thesis .
qed

text \<open>
  Claim C9, as stated, fails: the code does not compare the number of responses with the
  number of requests. For two requested numbers and four responses, two of them
  recovered as degraded blocks, the returned record has three entries.
\<close>

theorem getBlocks_degraded_blocks_extra_responses_counterexample:
  "block_unavailable (null_result_response ''10'') \<and>
   block_unavailable (null_result_response ''20'') \<and>
   getBlocks example_Number example_clock
     (example_blocks_post [Some (null_result_response ''10''), Some (null_result_response ''20''),
                           Some block_20_response, Some block_30_response])
     [10, 20]
     = Inr [([], \<lparr>blk_number = 20, blk_hash = [], blk_timestamp = 1700000000001,
                  blk_transactions = None\<rparr>),
            (''0xh20'', \<lparr>blk_number = 20, blk_hash = ''0xh20'', blk_timestamp = 100,
                         blk_transactions = None\<rparr>),
            (''0xh30'', \<lparr>blk_number = 30, blk_hash = ''0xh30'', blk_timestamp = 101,
                         blk_transactions = None\<rparr>)] \<and>
   \<not> (length [([], \<lparr>blk_number = 20 :: int, blk_hash = [], blk_timestamp = 1700000000001 :: int,
                  blk_transactions = None\<rparr>),
            (''0xh20'', \<lparr>blk_number = 20, blk_hash = ''0xh20'', blk_timestamp = 100,
                         blk_transactions = None\<rparr>),
            (''0xh30'', \<lparr>blk_number = 30, blk_hash = ''0xh30'', blk_timestamp = 101,
                         blk_transactions = None\<rparr>)] < length [10, 20 :: int])"
  by code_simp

text \<open>
  Claim C9, amended. Let the call return, with two of the provider's responses recovered
  as degraded blocks. Every block of the returned record is under its own hash, so a
  degraded block can only be under the empty one; the record has exactly one entry
  there, the degraded block of the last unavailable response, and it has fewer entries
  than there were responses: fewer than block numbers were requested, when the provider
  sends at most one response per request.
\<close>

theorem getBlocks_degraded_blocks_collapse:
  assumes nonempty: "blockNumbers \<noteq> []"
    and returned: "getBlocks Number_of clock post blockNumbers = Inr m"
    and answer: "post (map block_request_of blockNumbers) = Inr (Some results)"
    and order: "i < j" "j < length results"
    and first: "results ! i = Some ri" "block_unavailable ri"
    and second: "results ! j = Some rj" "block_unavailable rj"
  shows "length m < length results \<and>
         (length results \<le> length blockNumbers \<longrightarrow> length m < length blockNumbers) \<and>
         length (filter (\<lambda>entry. fst entry = []) m) = 1 \<and>
         (\<forall>h b. map_of m h = Some b \<longrightarrow> blk_hash b = h) \<and>
         (\<exists>k rk nk. j \<le> k \<and> k < length results \<and> results ! k = Some rk \<and>
            block_unavailable rk \<and> BigInt (resp_id rk) = Inr nk \<and>
            (\<forall>k' r. k < k' \<and> k' < length results \<and> results ! k' = Some r
                     \<longrightarrow> \<not> block_unavailable r) \<and>
            map_of m [] = Some \<lparr>blk_number = nk, blk_hash = [], blk_timestamp = clock k,
                                blk_transactions = None\<rparr>)"
proof -
  let ?reqs = "map block_request_of blockNumbers"
  let ?f = "\<lambda>idx r. block_of_response Number_of (clock idx) ?reqs idx r"
  from getBlocks_Inr_blocks[OF nonempty answer returned] obtain blocks where
    m: "m = blocks_by_hash blocks" and
    len: "length blocks = length results" and
    tie: "\<forall>k < length results. ?f k (results ! k) = Inr (blocks ! k)"
    by blast
  have i: "i < length results" using order by simp
  have hi: "blk_hash (blocks ! i) = []"
    using tie i first block_of_unavailable_hash by (metis (no_types, lifting))
  have hj: "blk_hash (blocks ! j) = []"
    using tie order(2) second block_of_unavailable_hash by (metis (no_types, lifting))
  have "\<not> distinct (map blk_hash blocks)"
  proof
    assume "distinct (map blk_hash blocks)"
    then have "(map blk_hash blocks ! i = map blk_hash blocks ! j) = (i = j)"
      using i order(2) len by (intro nth_eq_iff_index_eq) simp_all
    with hi hj i order len show False by simp
  qed
  then have "card (set (map blk_hash blocks)) \<noteq> length (map blk_hash blocks)"
    using card_distinct by blast
  moreover have "card (set (map blk_hash blocks)) \<le> length (map blk_hash blocks)"
    by (rule card_length)
  ultimately have "card (blk_hash ` set blocks) < length blocks"
    by simp
  then have fewer: "length m < length results"
    using len by (simp add: m length_blocks_by_hash)
  have "blocks ! i \<in> set blocks" using i len by simp
  then have "[] \<in> fst ` set m"
    using hi by (force simp: m blocks_by_hash_def keys_foldl_update)
  moreover have "distinct (map fst m)"
    by (simp add: m blocks_by_hash_def distinct_foldl_update)
  ultimately have one: "length (filter (\<lambda>entry. fst entry = []) m) = 1"
    by (intro distinct_keys_one_entry)
  from empty_key_last_degraded[OF len tie order(2) second] have survivor:
    "\<exists>k rk nk. j \<le> k \<and> k < length results \<and> results ! k = Some rk \<and>
            block_unavailable rk \<and> BigInt (resp_id rk) = Inr nk \<and>
            (\<forall>k' r. k < k' \<and> k' < length results \<and> results ! k' = Some r
                     \<longrightarrow> \<not> block_unavailable r) \<and>
            map_of m [] = Some \<lparr>blk_number = nk, blk_hash = [], blk_timestamp = clock k,
                                blk_transactions = None\<rparr>"
    unfolding m .
  have keyed: "\<forall>h b. map_of m h = Some b \<longrightarrow> blk_hash b = h"
  proof (intro allI impI)
    fix h b assume "map_of m h = Some b"
    then have "map_of (rev (map (\<lambda>b. (blk_hash b, b)) blocks)) h = Some b"
      by (simp add: m lookup_blocks_by_hash)
    then have "(h, b) \<in> set (rev (map (\<lambda>b. (blk_hash b, b)) blocks))"
      by (rule map_of_SomeD)
    then show "blk_hash b = h" by auto
  qed
  from fewer one keyed survivor show ?thesis by simp
qed

theorem getBlocks_degraded_blocks_collapse_witness:
  "getBlocks example_Number example_clock
     (example_blocks_post [Some (null_result_response ''10''), Some (error_6969_response ''20'')])
     [10, 20]
     = Inr [([], \<lparr>blk_number = 20, blk_hash = [], blk_timestamp = 1700000000001,
                  blk_transactions = None\<rparr>)] \<and>
   length [([] :: string, \<lparr>blk_number = 20 :: int, blk_hash = [],
                            blk_timestamp = 1700000000001 :: int, blk_transactions = None\<rparr>)]
     < length [Some (null_result_response ''10''), Some (error_6969_response ''20'')] \<and>
   length (filter (\<lambda>entry. fst entry = [])
             [([] :: string, \<lparr>blk_number = 20 :: int, blk_hash = [],
                               blk_timestamp = 1700000000001 :: int, blk_transactions = None\<rparr>)])
     = 1"
proof -
  let ?results = "[Some (null_result_response ''10''), Some (error_6969_response ''20'')]"
  let ?m = "[([] :: string, \<lparr>blk_number = 20 :: int, blk_hash = [],
                            blk_timestamp = 1700000000001 :: int, blk_transactions = None\<rparr>)]"
  have h0: "[10, 20 :: int] \<noteq> []" by simp
  have h1: "getBlocks example_Number example_clock (example_blocks_post ?results) [10, 20] = Inr ?m"
    by code_simp
  have h2: "example_blocks_post ?results (map block_request_of [10, 20]) = Inr (Some ?results)"
    by (simp add: example_blocks_post_def)
  have h4: "(0 :: nat) < 1" by simp
  have h5: "1 < length ?results" by simp
  have h6: "?results ! 0 = Some (null_result_response ''10'')" by simp
  have h7: "block_unavailable (null_result_response ''10'')"
    by (simp add: block_unavailable_def null_result_response_def)
  have h8: "?results ! 1 = Some (error_6969_response ''20'')" by simp
  have h9: "block_unavailable (error_6969_response ''20'')"
    by (simp add: block_unavailable_def error_6969_response_def)
  from getBlocks_degraded_blocks_collapse[where post = "example_blocks_post ?results" and results = ?results,
         OF h0 h1 h2 h4 h5 h6 h7 h8 h9] h1
  show ?thesis by blast
qed

end
